theory Spec2Isabelle
  imports Complex_Main "HOL-Library.List_Lexorder" "HOL-Library.Char_ord" "HOL-Library.AList"
begin

section \<open>Data model of \<^verbatim>\<open>airio/dataset_providers.py\<close>\<close>

text \<open>
  Exceptions are values. The source raises \<^verbatim>\<open>ValueError\<close> for every configuration
  error (the specification calls this class of failure ConfigurationError); a missing
  dictionary key and a division by zero are the two ways the arithmetic of
  \<^verbatim>\<open>Mixture.get_proportion\<close> can fail; a method called on \<^verbatim>\<open>None\<close> raises
  \<^verbatim>\<open>AttributeError\<close> and a loop over \<^verbatim>\<open>None\<close> raises \<^verbatim>\<open>TypeError\<close>.
\<close>

datatype error =
    ValueError string
  | KeyError nat
  | ZeroDivisionError
  | AttributeError string
  | TypeError string

definition DEFAULT_NUM_RECORDS_TO_INSPECT :: int where
  "DEFAULT_NUM_RECORDS_TO_INSPECT = 2"

definition MAX_NUM_RECORDS_TO_INSPECT :: int where
  "MAX_NUM_RECORDS_TO_INSPECT = 1000"

datatype ShardInfo = ShardInfo (index: int) (num_shards: int)

text \<open>
  The collaborators of the module are kept opaque, and every call into them may raise. A
  grain data source is a handle; a preprocessing operation is an opaque transformation or
  a batch operation (batch size, \<^verbatim>\<open>drop_remainder\<close>, which \<^verbatim>\<open>grain.Batch\<close> is once called
  without); a feature converter is its \<^verbatim>\<open>get_transforms\<close> method; a \<^verbatim>\<open>DataSource\<close>
  offers \<^verbatim>\<open>get_data_source(split)\<close> and \<^verbatim>\<open>num_input_examples(split)\<close>.
\<close>

datatype shard_options = NoSharding | ShardOptions int int

datatype preprocessor =
    Transformation nat
  | BatchOperation int bool
  | Batch int "bool option"

type_synonym sequence_lengths = "(string \<times> int) list option"

type_synonym feature_converter = "sequence_lengths \<Rightarrow> error + preprocessor list"

record data_source =
  src_get_data_source :: "string \<Rightarrow> error + nat"
  src_num_input_examples :: "string \<Rightarrow> error + int option"

text \<open>
  A sampler, a lazy dataset graph and a data loader wrapped in the iterator adapter are
  syntax trees: what the module asks the engine for.
\<close>

datatype index_sampler =
  IndexSampler "int option" shard_options bool "int option" "int option"

datatype lazy_ds =
    SourceLazyMapDataset nat
  | ShardLazyMapDataset lazy_ds shard_options
  | LazyDatasetTransform preprocessor lazy_ds "int option"
  | ShuffleLazyMapDataset lazy_ds int
  | ConcatLazyMapDataset "lazy_ds list"
  | MixedLazyMapDataset "lazy_ds list" "rat list" bool
  | RepeatLazyMapDataset lazy_ds "int option"

datatype 'ds loader_source = GrainDataSource nat | LazySource 'ds

datatype 'ds data_loader = DataLoader "'ds loader_source" index_sampler "preprocessor list"

datatype 'ds dataset_iterator = PyGrainDatasetIteratorWrapper "'ds data_loader"

text \<open>
  The engine the module calls into (grain, and the lazy dataset transforms of airio) is a
  parameter: one function for each constructor or call, which returns its result or the
  exception it raises. \<open>'ds\<close> is the engine's type of lazy datasets, \<open>'tr\<close> its type of
  lazy dataset transforms and \<open>'r\<close> its type of records. The fields stand for
  \<^verbatim>\<open>grain.IndexSampler(num_records, shard_options, shuffle, num_epochs, seed)\<close>,
  \<^verbatim>\<open>grain.BatchOperation(batch_size, drop_remainder)\<close>,
  \<^verbatim>\<open>grain.Batch(batch_size[, drop_remainder])\<close>, \<^verbatim>\<open>list(iterator)\<close>,
  \<^verbatim>\<open>SourceLazyMapDataset(source)\<close>, \<^verbatim>\<open>ShardLazyMapDataset(ds, shard_options)\<close>,
  \<^verbatim>\<open>LazyDatasetTransform(prep)\<close>, the call \<^verbatim>\<open>transform(ds, seed)\<close> of such a
  transform, \<^verbatim>\<open>ShuffleLazyMapDataset(ds, seed)\<close>,
  \<^verbatim>\<open>ConcatLazyMapDataset(dss)\<close>,
  \<^verbatim>\<open>MixedLazyMapDataset(datasets, proportions, stop_on_empty_dataset)\<close>,
  \<^verbatim>\<open>RepeatLazyMapDataset(ds, num_epochs)\<close> and \<^verbatim>\<open>len(ds)\<close>.
\<close>

record ('ds, 'tr, 'r) engine =
  new_IndexSampler ::
    "int option \<Rightarrow> shard_options \<Rightarrow> bool \<Rightarrow> int option \<Rightarrow> int option \<Rightarrow> error + index_sampler"
  new_BatchOperation :: "int \<Rightarrow> bool \<Rightarrow> error + preprocessor"
  new_Batch :: "int \<Rightarrow> bool option \<Rightarrow> error + preprocessor"
  materialize :: "'ds dataset_iterator \<Rightarrow> error + 'r list"
  new_SourceLazyMapDataset :: "nat \<Rightarrow> error + 'ds"
  new_ShardLazyMapDataset :: "'ds \<Rightarrow> shard_options \<Rightarrow> error + 'ds"
  new_LazyDatasetTransform :: "preprocessor \<Rightarrow> error + 'tr"
  call_LazyDatasetTransform :: "'tr \<Rightarrow> 'ds \<Rightarrow> int option \<Rightarrow> error + 'ds"
  new_ShuffleLazyMapDataset :: "'ds \<Rightarrow> int \<Rightarrow> error + 'ds"
  new_ConcatLazyMapDataset :: "'ds list \<Rightarrow> error + 'ds"
  new_MixedLazyMapDataset :: "'ds list \<Rightarrow> rat list \<Rightarrow> bool \<Rightarrow> error + 'ds"
  new_RepeatLazyMapDataset :: "'ds \<Rightarrow> int option \<Rightarrow> error + 'ds"
  len :: "'ds \<Rightarrow> error + int"

text \<open>
  A Task is an object with an identity (\<open>task_id\<close>, which is what \<^verbatim>\<open>hash\<close> and
  \<^verbatim>\<open>==\<close> see, the class defining neither), a name, a source and its
  \<^verbatim>\<open>_preprocessors\<close>: \<^verbatim>\<open>None\<close>, or a reference to a list object, which is an address
  in a store of list objects. The store makes the difference between the list itself and
  a copy of it visible.
\<close>

datatype task = Task (task_id: nat) (name: string) (source: "data_source option")
  (preprocessors: "nat option")

type_synonym heap = "preprocessor list list"

definition list_copy :: "heap \<Rightarrow> nat \<Rightarrow> nat \<times> heap" where
  "list_copy h a = (length h, h @ [h ! a])"

definition list_extend :: "heap \<Rightarrow> nat \<Rightarrow> preprocessor list \<Rightarrow> heap" where
  "list_extend h a xs = h[a := h ! a @ xs]"

definition list_append :: "heap \<Rightarrow> nat \<Rightarrow> preprocessor \<Rightarrow> heap" where
  "list_append h a x = h[a := h ! a @ [x]]"

definition truthy :: "int option \<Rightarrow> bool" where
  "truthy b = (case b of None \<Rightarrow> False | Some n \<Rightarrow> n \<noteq> 0)"

section \<open>Task\<close>

definition get_preprocessors :: "heap \<Rightarrow> task \<Rightarrow> (error + nat) \<times> heap" where
  "get_preprocessors h t =
     (case preprocessors t of
        None \<Rightarrow> (Inl (ValueError ''Preprocessors have not been set on this task.''), h)
      | Some a \<Rightarrow> (case list_copy h a of (b, h') \<Rightarrow> (Inr b, h')))"

definition Task_num_input_examples :: "task \<Rightarrow> string \<Rightarrow> error + int option" where
  "Task_num_input_examples t split =
     (case source t of
        None \<Rightarrow> Inl (ValueError ''Source has not been set on this task object.'')
      | Some s \<Rightarrow> src_num_input_examples s split)"

definition get_data_source_for_split :: "task \<Rightarrow> string \<Rightarrow> error + nat" where
  "get_data_source_for_split t split =
     (case source t of
        None \<Rightarrow> Inl (ValueError ''Source has not been set on this task object.'')
      | Some s \<Rightarrow> src_get_data_source s split)"

definition load_data ::
  "nat \<Rightarrow> index_sampler \<Rightarrow> preprocessor list \<Rightarrow> 'ds dataset_iterator"
where
  "load_data src sampler ops =
     PyGrainDatasetIteratorWrapper (DataLoader (GrainDataSource src) sampler ops)"

text \<open>
  The two statements that \<^verbatim>\<open>get_dataset\<close> and \<^verbatim>\<open>get_dataset_by_step\<close> share: extend
  the list \<open>ops\<close> with the converter's transforms, then append a batch operation.
\<close>

definition extend_ops ::
  "('ds, 'tr, 'r) engine \<Rightarrow> heap \<Rightarrow> nat \<Rightarrow> sequence_lengths \<Rightarrow> feature_converter option \<Rightarrow>
   int option \<Rightarrow> (error + unit) \<times> heap"
where
  "extend_ops eng h ops sequence_lengths feature_converter batch_size =
     (case (case feature_converter of
              None \<Rightarrow> Inr h
            | Some fc \<Rightarrow>
                (case fc sequence_lengths of
                   Inl e \<Rightarrow> Inl e
                 | Inr transforms \<Rightarrow> Inr (list_extend h ops transforms))) of
        Inl e \<Rightarrow> (Inl e, h)
      | Inr h1 \<Rightarrow>
          if truthy batch_size
          then (case new_BatchOperation eng (the batch_size) False of
                  Inl e \<Rightarrow> (Inl e, h1)
                | Inr batch_op \<Rightarrow> (Inr (), list_append h1 ops batch_op))
          else (Inr (), h1))"

definition Task_get_dataset ::
  "('ds, 'tr, 'r) engine \<Rightarrow> heap \<Rightarrow> task \<Rightarrow> sequence_lengths \<Rightarrow> string \<Rightarrow>
   feature_converter option \<Rightarrow> int option \<Rightarrow> bool \<Rightarrow> int option \<Rightarrow> ShardInfo option \<Rightarrow>
   int option \<Rightarrow> (error + 'ds dataset_iterator) \<times> heap"
where
  "Task_get_dataset eng h t sequence_lengths split feature_converter batch_size shuffle seed
     shard_info num_epochs =
     (let shard_opts = (case shard_info of
                          None \<Rightarrow> NoSharding
                        | Some si \<Rightarrow> ShardOptions (index si) (num_shards si))
      in case Task_num_input_examples t split of
           Inl e \<Rightarrow> (Inl e, h)
         | Inr n \<Rightarrow>
             (case new_IndexSampler eng n shard_opts shuffle num_epochs seed of
                Inl e \<Rightarrow> (Inl e, h)
              | Inr sampler \<Rightarrow>
                  (case get_data_source_for_split t split of
                     Inl e \<Rightarrow> (Inl e, h)
                   | Inr src \<Rightarrow>
                       (case get_preprocessors h t of
                          (Inl e, h1) \<Rightarrow> (Inl e, h1)
                        | (Inr ops, h1) \<Rightarrow>
                            (case extend_ops eng h1 ops sequence_lengths feature_converter
                                    batch_size of
                               (Inl e, h2) \<Rightarrow> (Inl e, h2)
                             | (Inr _, h2) \<Rightarrow>
                                 (Inr (load_data src sampler (h2 ! ops)), h2))))))"

definition validate_num_records :: "int \<Rightarrow> int" where
  "validate_num_records num_records =
     (if num_records < 1 then DEFAULT_NUM_RECORDS_TO_INSPECT
      else if num_records > MAX_NUM_RECORDS_TO_INSPECT then MAX_NUM_RECORDS_TO_INSPECT
      else num_records)"

text \<open>The loop of \<^verbatim>\<open>get_dataset_by_step\<close> over \<^verbatim>\<open>all_ops\<close>.\<close>

fun accumulate_steps ::
  "(preprocessor list \<Rightarrow> error + 'r list) \<Rightarrow> preprocessor list \<Rightarrow> preprocessor list \<Rightarrow>
   'r list list \<Rightarrow> error + 'r list list"
where
  "accumulate_steps ld [] accumulated_ops accumulated_result = Inr accumulated_result"
| "accumulate_steps ld (p # all_ops) accumulated_ops accumulated_result =
     (let accumulated_ops' = accumulated_ops @ [p]
      in case ld accumulated_ops' of
           Inl e \<Rightarrow> Inl e
         | Inr records_next_step \<Rightarrow>
             accumulate_steps ld all_ops accumulated_ops'
               (accumulated_result @ [records_next_step]))"

definition get_dataset_by_step ::
  "('ds, 'tr, 'r) engine \<Rightarrow> heap \<Rightarrow> task \<Rightarrow> int \<Rightarrow> sequence_lengths \<Rightarrow> string \<Rightarrow>
   feature_converter option \<Rightarrow> int option \<Rightarrow> bool \<Rightarrow> int option \<Rightarrow>
   (error + 'r list list) \<times> heap"
where
  "get_dataset_by_step eng h t num_records sequence_lengths split feature_converter
     batch_size shuffle seed =
     (let num_records' = validate_num_records num_records
      in case new_IndexSampler eng (Some num_records') NoSharding shuffle (Some 1) seed of
           Inl e \<Rightarrow> (Inl e, h)
         | Inr sampler \<Rightarrow>
             (case get_data_source_for_split t split of
                Inl e \<Rightarrow> (Inl e, h)
              | Inr src \<Rightarrow>
                  (case get_preprocessors h t of
                     (Inl e, h1) \<Rightarrow> (Inl e, h1)
                   | (Inr all_ops, h1) \<Rightarrow>
                       (case extend_ops eng h1 all_ops sequence_lengths feature_converter
                               batch_size of
                          (Inl e, h2) \<Rightarrow> (Inl e, h2)
                        | (Inr _, h2) \<Rightarrow>
                            (case materialize eng (load_data src sampler []) of
                               Inl e \<Rightarrow> (Inl e, h2)
                             | Inr records_step0 \<Rightarrow>
                                 (let accumulated_result = [records_step0]
                                  in if h2 ! all_ops = [] then (Inr accumulated_result, h2)
                                     else (accumulate_steps
                                             (\<lambda>ops. materialize eng (load_data src sampler ops))
                                             (h2 ! all_ops) [] accumulated_result, h2)))))))"

section \<open>Mixture\<close>

text \<open>
  A Mixture is an object with an identity and two dictionaries keyed by the hashes of its
  components. Python dictionaries keep insertion order, so they are association lists;
  \<^verbatim>\<open>dict(zip(keys, values))\<close> inserts the pairs from left to right, a repeated key
  overwriting the value at the key's first position.
\<close>

datatype component = CTask task | CMixture mixture
and mixture = Mixture (mixture_id: nat) (mixture_name: string)
    (tasks_or_mixtures_dict: "(nat \<times> component) list")
    (proportions_dict: "(nat \<times> rat) list")

text \<open>
  Neither class defines \<^verbatim>\<open>__hash__\<close> or \<^verbatim>\<open>__eq__\<close>: the hash of an object is a
  function of its address, one-to-one on live objects, and two objects are equal when
  they are the same object. Both are the object's identity here.
\<close>

fun hash :: "component \<Rightarrow> nat" where
  "hash (CTask t) = task_id t"
| "hash (CMixture m) = mixture_id m"

definition dict_of :: "('k \<times> 'v) list \<Rightarrow> ('k \<times> 'v) list" where
  "dict_of kvs = fold (\<lambda>(k, v) d. AList.update k v d) kvs []"

definition Mixture_init ::
  "nat \<Rightarrow> string \<Rightarrow> component list \<Rightarrow> rat list \<Rightarrow> error + mixture"
where
  "Mixture_init self name' tasks proportions =
     (if length tasks \<noteq> length proportions
      then Inl (ValueError (''Mixture '' @ name' @
                  '' must have same number of tasks and proportions.''))
      else let hashes = map hash tasks
           in if card (set hashes) \<noteq> length tasks
              then Inl (ValueError (''Mixture '' @ name' @ '' has duplicate tasks.''))
              else Inr (Mixture self name' (dict_of (zip hashes tasks))
                          (dict_of (zip hashes proportions))))"

definition tasks_or_mixtures :: "mixture \<Rightarrow> component list" where
  "tasks_or_mixtures m = map snd (tasks_or_mixtures_dict m)"

definition total_proportion :: "mixture \<Rightarrow> rat" where
  "total_proportion m = sum_list (map snd (proportions_dict m))"

text \<open>The two \<^verbatim>\<open>isinstance\<close> filters of \<^verbatim>\<open>leaf_tasks\<close>.\<close>

fun tasks_among :: "component list \<Rightarrow> task list" where
  "tasks_among [] = []"
| "tasks_among (CTask t # cs) = t # tasks_among cs"
| "tasks_among (CMixture m # cs) = tasks_among cs"

fun mixtures_among :: "component list \<Rightarrow> mixture list" where
  "mixtures_among [] = []"
| "mixtures_among (CTask t # cs) = mixtures_among cs"
| "mixtures_among (CMixture m # cs) = m # mixtures_among cs"

lemma size_sub_mixture:
  "m \<in> set (mixtures_among (map snd comps)) \<Longrightarrow>
   size m < Suc (size_list (size_prod (\<lambda>_. 0) size) comps)"
proof (induction comps)
  case Nil
  then show ?case by simp
next
  case (Cons c comps)
  then show ?case by (cases c; cases "snd c") auto
qed

text \<open>
  \<^verbatim>\<open>set(xs)\<close> followed by iteration yields the elements of \<open>xs\<close> once each, in an
  order that depends on the addresses of the objects: the order is a parameter, and
  \<open>set_iteration_ok\<close> says what every such order satisfies (membership and identity are
  by object identity).
\<close>

type_synonym set_iteration = "task list \<Rightarrow> task list"

definition set_iteration_ok :: "set_iteration \<Rightarrow> bool" where
  "set_iteration_ok si =
     (\<forall>xs. distinct (map task_id (si xs)) \<and> set (si xs) \<subseteq> set xs \<and>
           task_id ` set (si xs) = task_id ` set xs)"

function leaf_tasks :: "set_iteration \<Rightarrow> mixture \<Rightarrow> task list" where
  "leaf_tasks si (Mixture self n comps props) =
     (let all = map snd comps;
          tasks = tasks_among all;
          mixtures = mixtures_among all;
          sub_tasks = map (leaf_tasks si) mixtures
      in sort_key name (si (tasks @ concat sub_tasks)))"
  by pat_completeness auto
termination
  apply (relation "measure (\<lambda>(si, m). size m)")
   apply simp
  apply (auto dest: size_sub_mixture)
  done

text \<open>\<^verbatim>\<open>task in leaf_tasks\<close>: some element of the list is the same object.\<close>

definition is_in :: "component \<Rightarrow> task list \<Rightarrow> bool" where
  "is_in x ts = (hash x \<in> set (map task_id ts))"

text \<open>
  \<^verbatim>\<open>Mixture.get_proportion\<close>. Proportions are exact rationals. A division by a zero
  \<^verbatim>\<open>total_proportion\<close> raises, as does the lookup of a missing key.
\<close>

function get_proportion :: "set_iteration \<Rightarrow> mixture \<Rightarrow> component \<Rightarrow> error + rat" where
  "get_proportion si (Mixture self n comps props) task =
     (let prop = 0;
          task_hash = hash task;
          prop = (case map_of props task_hash of None \<Rightarrow> prop | Some p \<Rightarrow> prop + p)
      in if \<not> is_in task (leaf_tasks si (Mixture self n comps props)) then Inr prop
         else fold (\<lambda>sub_task acc.
                 case acc of
                   Inl e \<Rightarrow> Inl e
                 | Inr prop \<Rightarrow>
                     if is_in task (leaf_tasks si sub_task) then
                       (case map_of props (mixture_id sub_task) of
                          None \<Rightarrow> Inl (KeyError (mixture_id sub_task))
                        | Some w \<Rightarrow>
                            (case get_proportion si sub_task task of
                               Inl e \<Rightarrow> Inl e
                             | Inr q \<Rightarrow>
                                 if total_proportion sub_task = 0 then Inl ZeroDivisionError
                                 else Inr (prop + w * q / total_proportion sub_task)))
                     else Inr prop)
               (mixtures_among (map snd comps)) (Inr prop))"
  by pat_completeness auto
termination
  apply (relation "measure (\<lambda>(si, m, x). size m)")
   apply simp
  apply (auto dest: size_sub_mixture)
  done

section \<open>Seeds\<close>

text \<open>
  \<^verbatim>\<open>np.random.RandomState(seed)\<close> followed by two draws of \<^verbatim>\<open>randint(0, 2**16 - 1)\<close>.
  The generator is a parameter: for an integer seed the pair it draws is a function of
  the seed, and for \<^verbatim>\<open>None\<close> the generator is seeded from the operating system, so the
  value of the parameter at \<open>None\<close> stands for one such draw. numpy rejects an integer
  seed outside \<open>[0, 2\<^sup>3\<^sup>2 - 1]\<close> with a \<^verbatim>\<open>ValueError\<close>; \<open>randint_ok\<close> says that every
  draw lies in \<open>[0, 2\<^sup>1\<^sup>6 - 1)\<close>.
\<close>

type_synonym random_state = "int option \<Rightarrow> int \<times> int"

definition randint_ok :: "random_state \<Rightarrow> bool" where
  "randint_ok rs =
     (\<forall>seed. 0 \<le> fst (rs seed) \<and> fst (rs seed) < 2 ^ 16 - 1 \<and>
             0 \<le> snd (rs seed) \<and> snd (rs seed) < 2 ^ 16 - 1)"

definition split_seed :: "random_state \<Rightarrow> int option \<Rightarrow> error + (int \<times> int)" where
  "split_seed rs seed =
     (case seed of
        None \<Rightarrow> Inr (rs None)
      | Some s \<Rightarrow>
          if 0 \<le> s \<and> s \<le> 2 ^ 32 - 1 then Inr (rs (Some s))
          else Inl (ValueError ''Seed must be between 0 and 2**32 - 1''))"

section \<open>The lazy dataset of a Mixture\<close>

text \<open>
  The inner loop of \<^verbatim>\<open>get_task_lazy_dataset\<close>: one epoch's preprocessors, each applied
  with the current \<^verbatim>\<open>prep_seed\<close>, which is split anew after each.
\<close>

fun run_preprocessors ::
  "('ds, 'tr, 'r) engine \<Rightarrow> random_state \<Rightarrow> preprocessor list \<Rightarrow> 'ds \<Rightarrow> int \<Rightarrow>
   error + ('ds \<times> int)"
where
  "run_preprocessors eng rs [] ds prep_seed = Inr (ds, prep_seed)"
| "run_preprocessors eng rs (prep # preps) ds prep_seed =
     (case new_LazyDatasetTransform eng prep of
        Inl e \<Rightarrow> Inl e
      | Inr transform \<Rightarrow>
          (case call_LazyDatasetTransform eng transform ds (Some prep_seed) of
             Inl e \<Rightarrow> Inl e
           | Inr ds' \<Rightarrow>
               (case split_seed rs (Some prep_seed) of
                  Inl e \<Rightarrow> Inl e
                | Inr (prep_seed', _) \<Rightarrow> run_preprocessors eng rs preps ds' prep_seed')))"

text \<open>
  The messages of the \<^verbatim>\<open>TypeError\<close> for a loop over \<^verbatim>\<open>None\<close> and of the
  \<^verbatim>\<open>AttributeError\<close> for a method of \<^verbatim>\<open>None\<close>.
\<close>

definition not_iterable :: string where
  "not_iterable = [CHR 0x27] @ ''NoneType'' @ [CHR 0x27] @ '' object is not iterable''"

definition no_attribute :: "string \<Rightarrow> string" where
  "no_attribute method =
     [CHR 0x27] @ ''NoneType'' @ [CHR 0x27] @ '' object has no attribute ''
     @ [CHR 0x27] @ method @ [CHR 0x27]"

text \<open>
  The outer loop: one iteration per epoch. \<open>preps\<close> is the content of the task's list, or
  \<open>None\<close> when the task's \<^verbatim>\<open>_preprocessors\<close> is \<^verbatim>\<open>None\<close>, which the inner
  \<^verbatim>\<open>for\<close> cannot iterate.
\<close>

fun run_epochs ::
  "('ds, 'tr, 'r) engine \<Rightarrow> random_state \<Rightarrow> preprocessor list option \<Rightarrow> bool \<Rightarrow> 'ds list \<Rightarrow>
   int option \<Rightarrow> 'ds list \<Rightarrow> error + 'ds list"
where
  "run_epochs eng rs preps shuffle [] next_epoch_seed preprocessed_dss = Inr preprocessed_dss"
| "run_epochs eng rs preps shuffle (ds # dss) next_epoch_seed preprocessed_dss =
     (case split_seed rs next_epoch_seed of
        Inl e \<Rightarrow> Inl e
      | Inr (next_epoch_seed', prep_seed) \<Rightarrow>
          (case split_seed rs (Some prep_seed) of
             Inl e \<Rightarrow> Inl e
           | Inr (prep_seed', shuffle_seed) \<Rightarrow>
               (case (case preps of
                        None \<Rightarrow> Inl (TypeError not_iterable)
                      | Some ps \<Rightarrow> run_preprocessors eng rs ps ds prep_seed') of
                  Inl e \<Rightarrow> Inl e
                | Inr (ds', _) \<Rightarrow>
                    (case (if shuffle then new_ShuffleLazyMapDataset eng ds' shuffle_seed
                           else Inr ds') of
                       Inl e \<Rightarrow> Inl e
                     | Inr shuffled \<Rightarrow>
                         run_epochs eng rs preps shuffle dss (Some next_epoch_seed')
                           (preprocessed_dss @ [shuffled])))))"


definition get_task_lazy_dataset ::
  "('ds, 'tr, 'r) engine \<Rightarrow> random_state \<Rightarrow> heap \<Rightarrow> task \<Rightarrow> sequence_lengths \<Rightarrow> string \<Rightarrow>
   feature_converter option \<Rightarrow> int option \<Rightarrow> bool \<Rightarrow> int option \<Rightarrow> ShardInfo option \<Rightarrow>
   int option \<Rightarrow> (error + 'ds) \<times> heap"
where
  "get_task_lazy_dataset eng rs h task sequence_lengths split feature_converter batch_size
     shuffle seed shard_info num_epochs =
     (case get_data_source_for_split task split of
        Inl e \<Rightarrow> (Inl e, h)
      | Inr src \<Rightarrow>
     (case new_SourceLazyMapDataset eng src of
        Inl e \<Rightarrow> (Inl e, h)
      | Inr ds0 \<Rightarrow>
     (case (case shard_info of
              None \<Rightarrow> Inr ds0
            | Some si \<Rightarrow>
                new_ShardLazyMapDataset eng ds0 (ShardOptions (index si) (num_shards si))) of
        Inl e \<Rightarrow> (Inl e, h)
      | Inr ds \<Rightarrow>
     (let dss = (if truthy num_epochs then replicate (nat (the num_epochs)) ds else [ds]);
          preps = preprocessors task
      in
     (case (case feature_converter of
              None \<Rightarrow> Inr h
            | Some fc \<Rightarrow>
                (case preps of
                   None \<Rightarrow> Inl (AttributeError (no_attribute ''extend''))
                 | Some a \<Rightarrow>
                     (case fc sequence_lengths of
                        Inl e \<Rightarrow> Inl e
                      | Inr transforms \<Rightarrow> Inr (list_extend h a transforms)))) of
        Inl e \<Rightarrow> (Inl e, h)
      | Inr h1 \<Rightarrow>
     (case (if truthy batch_size
            then (case preps of
                    None \<Rightarrow> Inl (AttributeError (no_attribute ''append''))
                  | Some a \<Rightarrow>
                      (case new_Batch eng (the batch_size) None of
                         Inl e \<Rightarrow> Inl e
                       | Inr batch_op \<Rightarrow> Inr (list_append h1 a batch_op)))
            else Inr h1) of
        Inl e \<Rightarrow> (Inl e, h1)
      | Inr h2 \<Rightarrow>
     (case run_epochs eng rs (map_option (\<lambda>a. h2 ! a) preps) shuffle dss seed [] of
        Inl e \<Rightarrow> (Inl e, h2)
      | Inr preprocessed_dss \<Rightarrow>
          if length preprocessed_dss = 1 then (Inr (preprocessed_dss ! 0), h2)
          else (case new_ConcatLazyMapDataset eng preprocessed_dss of
                  Inl e \<Rightarrow> (Inl e, h2)
                | Inr ds' \<Rightarrow> (Inr ds', h2)))))))))"

definition repeat_with_shuffle_message :: string where
  "repeat_with_shuffle_message =
     ''Repeating indefinitely with shuffling turned on isn'' @ [CHR 0x27] @ ''t supported.''"

text \<open>The loop of \<^verbatim>\<open>get_lazy_dataset\<close> over the leaf tasks.\<close>

fun mix_leaf_tasks ::
  "('ds, 'tr, 'r) engine \<Rightarrow> random_state \<Rightarrow> set_iteration \<Rightarrow> mixture \<Rightarrow> sequence_lengths \<Rightarrow>
   string \<Rightarrow> bool \<Rightarrow> int option \<Rightarrow> ShardInfo option \<Rightarrow> int option \<Rightarrow> task list \<Rightarrow> heap \<Rightarrow>
   'ds list \<Rightarrow> rat list \<Rightarrow> (error + ('ds list \<times> rat list)) \<times> heap"
where
  "mix_leaf_tasks eng rs si m sequence_lengths split shuffle seed shard_info num_epochs [] h
     datasets proportions = (Inr (datasets, proportions), h)"
| "mix_leaf_tasks eng rs si m sequence_lengths split shuffle seed shard_info num_epochs
     (task # tasks) h datasets proportions =
     (case get_task_lazy_dataset eng rs h task sequence_lengths split None None shuffle seed
             shard_info num_epochs of
        (Inl e, h') \<Rightarrow> (Inl e, h')
      | (Inr ds, h') \<Rightarrow>
          (case get_proportion si m (CTask task) of
             Inl e \<Rightarrow> (Inl e, h')
           | Inr p \<Rightarrow>
               mix_leaf_tasks eng rs si m sequence_lengths split shuffle seed shard_info
                 num_epochs tasks h' (datasets @ [ds]) (proportions @ [p])))"

text \<open>
  The list comprehension that wraps each post-mix operation in a transform, and the loop
  over \<^verbatim>\<open>post_mix_transforms\<close>, each called with \<^verbatim>\<open>seed=None\<close>.
\<close>

fun new_transforms :: "('ds, 'tr, 'r) engine \<Rightarrow> preprocessor list \<Rightarrow> error + 'tr list" where
  "new_transforms eng [] = Inr []"
| "new_transforms eng (p # post_mix_preps) =
     (case new_LazyDatasetTransform eng p of
        Inl e \<Rightarrow> Inl e
      | Inr t \<Rightarrow>
          (case new_transforms eng post_mix_preps of
             Inl e \<Rightarrow> Inl e
           | Inr ts \<Rightarrow> Inr (t # ts)))"

fun run_post_mix :: "('ds, 'tr, 'r) engine \<Rightarrow> 'tr list \<Rightarrow> 'ds \<Rightarrow> error + 'ds" where
  "run_post_mix eng [] ds = Inr ds"
| "run_post_mix eng (t # post_mix_transforms) ds =
     (case call_LazyDatasetTransform eng t ds None of
        Inl e \<Rightarrow> Inl e
      | Inr ds' \<Rightarrow> run_post_mix eng post_mix_transforms ds')"

text \<open>
  \<^verbatim>\<open>get_lazy_dataset\<close> from its first loop to the post-mix transforms: the finished mixed
  dataset, before the last statement of the function. A feature converter that is there
  counts as true.
\<close>

definition mixed_dataset ::
  "('ds, 'tr, 'r) engine \<Rightarrow> random_state \<Rightarrow> set_iteration \<Rightarrow> heap \<Rightarrow> mixture \<Rightarrow> sequence_lengths \<Rightarrow>
   string \<Rightarrow> feature_converter option \<Rightarrow> int option \<Rightarrow> bool \<Rightarrow> int option \<Rightarrow>
   ShardInfo option \<Rightarrow> int option \<Rightarrow> (error + 'ds) \<times> heap"
where
  "mixed_dataset eng rs si h m sequence_lengths split feature_converter batch_size shuffle seed
     shard_info num_epochs =
     (case mix_leaf_tasks eng rs si m sequence_lengths split shuffle seed shard_info
             num_epochs (leaf_tasks si m) h [] [] of
        (Inl e, h') \<Rightarrow> (Inl e, h')
      | (Inr (datasets, proportions), h') \<Rightarrow>
     (case new_MixedLazyMapDataset eng datasets proportions True of
        Inl e \<Rightarrow> (Inl e, h')
      | Inr ds \<Rightarrow>
     (case (case feature_converter of
              None \<Rightarrow> Inr []
            | Some fc \<Rightarrow> fc sequence_lengths) of
        Inl e \<Rightarrow> (Inl e, h')
      | Inr transforms \<Rightarrow>
     (case (if truthy batch_size
            then (case new_Batch eng (the batch_size) (Some False) of
                    Inl e \<Rightarrow> Inl e
                  | Inr batch_op \<Rightarrow> Inr (transforms @ [batch_op]))
            else Inr transforms) of
        Inl e \<Rightarrow> (Inl e, h')
      | Inr post_mix_preps \<Rightarrow>
     (case new_transforms eng post_mix_preps of
        Inl e \<Rightarrow> (Inl e, h')
      | Inr post_mix_transforms \<Rightarrow>
     (case run_post_mix eng post_mix_transforms ds of
        Inl e \<Rightarrow> (Inl e, h')
      | Inr ds' \<Rightarrow> (Inr ds', h')))))))"

definition get_lazy_dataset ::
  "('ds, 'tr, 'r) engine \<Rightarrow> random_state \<Rightarrow> set_iteration \<Rightarrow> heap \<Rightarrow> mixture \<Rightarrow> sequence_lengths \<Rightarrow>
   string \<Rightarrow> feature_converter option \<Rightarrow> int option \<Rightarrow> bool \<Rightarrow> int option \<Rightarrow>
   ShardInfo option \<Rightarrow> int option \<Rightarrow> (error + 'ds) \<times> heap"
where
  "get_lazy_dataset eng rs si h m sequence_lengths split feature_converter batch_size shuffle
     seed shard_info num_epochs =
     (if num_epochs = None \<and> shuffle then (Inl (ValueError repeat_with_shuffle_message), h)
      else case mixed_dataset eng rs si h m sequence_lengths split feature_converter batch_size
                  shuffle seed shard_info num_epochs of
             (Inl e, h') \<Rightarrow> (Inl e, h')
           | (Inr ds, h') \<Rightarrow>
               if num_epochs = None
               then (case new_RepeatLazyMapDataset eng ds None of
                       Inl e \<Rightarrow> (Inl e, h')
                     | Inr ds' \<Rightarrow> (Inr ds', h'))
               else (Inr ds, h'))"

definition Mixture_get_dataset ::
  "('ds, 'tr, 'r) engine \<Rightarrow> random_state \<Rightarrow> set_iteration \<Rightarrow> heap \<Rightarrow> mixture \<Rightarrow> sequence_lengths \<Rightarrow>
   string \<Rightarrow> feature_converter option \<Rightarrow> int option \<Rightarrow> bool \<Rightarrow> int option \<Rightarrow>
   ShardInfo option \<Rightarrow> int option \<Rightarrow> (error + 'ds dataset_iterator) \<times> heap"
where
  "Mixture_get_dataset eng rs si h m sequence_lengths split feature_converter batch_size
     shuffle seed shard_info num_epochs =
     (case get_lazy_dataset eng rs si h m sequence_lengths split feature_converter batch_size
             shuffle seed shard_info num_epochs of
        (Inl e, h') \<Rightarrow> (Inl e, h')
      | (Inr ds, h') \<Rightarrow>
          (case len eng ds of
             Inl e \<Rightarrow> (Inl e, h')
           | Inr n \<Rightarrow>
               (case new_IndexSampler eng (Some n) NoSharding False (Some 1) seed of
                  Inl e \<Rightarrow> (Inl e, h')
                | Inr sampler \<Rightarrow>
                    (Inr (PyGrainDatasetIteratorWrapper (DataLoader (LazySource ds) sampler [])),
                     h'))))"

text \<open>The module's \<^verbatim>\<open>get_dataset\<close>, which passes no \<^verbatim>\<open>shard_info\<close>.\<close>

definition get_dataset ::
  "('ds, 'tr, 'r) engine \<Rightarrow> random_state \<Rightarrow> set_iteration \<Rightarrow> heap \<Rightarrow> component \<Rightarrow> sequence_lengths \<Rightarrow>
   string \<Rightarrow> feature_converter option \<Rightarrow> int option \<Rightarrow> bool \<Rightarrow> int option \<Rightarrow> int option \<Rightarrow>
   (error + 'ds dataset_iterator) \<times> heap"
where
  "get_dataset eng rs si h mixture_or_task sequence_lengths split feature_converter batch_size
     shuffle num_epochs seed =
     (case mixture_or_task of
        CTask t \<Rightarrow>
          Task_get_dataset eng h t sequence_lengths split feature_converter batch_size shuffle
            seed None num_epochs
      | CMixture m \<Rightarrow>
          Mixture_get_dataset eng rs si h m sequence_lengths split feature_converter batch_size
            shuffle seed None num_epochs)"

section \<open>The cached property \<^verbatim>\<open>leaf_tasks\<close>\<close>

text \<open>
  \<^verbatim>\<open>functools.cached_property\<close> stores the value in the object at the first read and
  returns the stored value at every later one. The cache maps the identity of a Mixture to
  the value stored in it; a read takes the cache and returns the new one. The reads of the
  sub-Mixtures' \<^verbatim>\<open>leaf_tasks\<close>, from left to right, fill their caches on the way.
\<close>

type_synonym leaf_cache = "nat \<Rightarrow> task list option"

function leaf_tasks_cached ::
  "set_iteration \<Rightarrow> mixture \<Rightarrow> leaf_cache \<Rightarrow> task list \<times> leaf_cache"
where
  "leaf_tasks_cached si (Mixture self n comps props) cache =
     (case cache self of
        Some val \<Rightarrow> (val, cache)
      | None \<Rightarrow>
          (let all = map snd comps;
               tasks = tasks_among all;
               mixtures = mixtures_among all;
               (sub_tasks, cache1) =
                  fold (\<lambda>mix (acc, c). case leaf_tasks_cached si mix c of
                                           (l, c') \<Rightarrow> (acc @ [l], c'))
                    mixtures ([], cache);
               val = sort_key name (si (tasks @ concat sub_tasks))
           in (val, cache1(self \<mapsto> val))))"
  by pat_completeness auto
termination
  apply (relation "measure (\<lambda>(si, m, c). size m)")
   apply simp
  apply (auto dest: size_sub_mixture)
  done

section \<open>Notions of the specification\<close>

text \<open>
  The Tasks transitively reachable from a Mixture through its nested Mixtures, and the
  weight a Mixture's own dictionary gives an object (0 when the object is no key of it).
\<close>

function reachable_tasks :: "mixture \<Rightarrow> task set" where
  "reachable_tasks (Mixture self n comps props) =
     set (tasks_among (map snd comps))
     \<union> (\<Union>m \<in> set (mixtures_among (map snd comps)). reachable_tasks m)"
  by pat_completeness auto
termination
  apply (relation "measure size")
   apply simp
  apply (auto dest: size_sub_mixture)
  done

definition direct_weight :: "mixture \<Rightarrow> component \<Rightarrow> rat" where
  "direct_weight m x = (case map_of (proportions_dict m) (hash x) of None \<Rightarrow> 0 | Some p \<Rightarrow> p)"

text \<open>
  The transforms of an optional feature converter, and the operation chain that
  \<^verbatim>\<open>get_dataset\<close> and \<^verbatim>\<open>get_dataset_by_step\<close> run: the task's own preprocessors (the
  content \<open>own\<close> of its list), then the converter's transforms, then the batch operation
  if \<^verbatim>\<open>batch_size\<close> is set.
\<close>

definition converter_transforms ::
  "feature_converter option \<Rightarrow> sequence_lengths \<Rightarrow> error + preprocessor list"
where
  "converter_transforms feature_converter sequence_lengths =
     (case feature_converter of None \<Rightarrow> Inr [] | Some fc \<Rightarrow> fc sequence_lengths)"

definition batch_operations ::
  "('ds, 'tr, 'r) engine \<Rightarrow> int option \<Rightarrow> error + preprocessor list"
where
  "batch_operations eng batch_size =
     (if truthy batch_size
      then (case new_BatchOperation eng (the batch_size) False of
              Inl e \<Rightarrow> Inl e
            | Inr batch_op \<Rightarrow> Inr [batch_op])
      else Inr [])"

text \<open>The batch operation that \<^verbatim>\<open>get_task_lazy_dataset\<close> appends.\<close>

definition lazy_batch_operations ::
  "('ds, 'tr, 'r) engine \<Rightarrow> int option \<Rightarrow> error + preprocessor list"
where
  "lazy_batch_operations eng batch_size =
     (if truthy batch_size
      then (case new_Batch eng (the batch_size) None of
              Inl e \<Rightarrow> Inl e
            | Inr batch_op \<Rightarrow> Inr [batch_op])
      else Inr [])"

definition combined_chain ::
  "preprocessor list \<Rightarrow> preprocessor list \<Rightarrow> preprocessor list \<Rightarrow> preprocessor list"
where
  "combined_chain own transforms batch_ops = own @ transforms @ batch_ops"

text \<open>
  The trace of a chain: the sample materialized from the source and the sampler with the
  first \<open>i\<close> operations of the chain, for \<open>i\<close> from 0 to the length of the chain; the first
  materialization that raises ends it.
\<close>

fun collect :: "(error + 'a) list \<Rightarrow> error + 'a list" where
  "collect [] = Inr []"
| "collect (x # xs) =
     (case x of
        Inl e \<Rightarrow> Inl e
      | Inr v \<Rightarrow> (case collect xs of Inl e \<Rightarrow> Inl e | Inr vs \<Rightarrow> Inr (v # vs)))"

definition step_trace ::
  "('ds, 'tr, 'r) engine \<Rightarrow> nat \<Rightarrow> index_sampler \<Rightarrow> preprocessor list \<Rightarrow> error + 'r list list"
where
  "step_trace eng src sampler chain =
     collect (map (\<lambda>i. materialize eng (load_data src sampler (take i chain)))
                [0..<Suc (length chain)])"

text \<open>
  The Mixtures reachable from a Mixture, itself included, and a cache that holds, for the
  Mixtures of a set, nothing but their leaf tasks.
\<close>

function sub_mixtures :: "mixture \<Rightarrow> mixture set" where
  "sub_mixtures (Mixture self n comps props) =
     insert (Mixture self n comps props)
       (\<Union>m \<in> set (mixtures_among (map snd comps)). sub_mixtures m)"
  by pat_completeness auto
termination
  apply (relation "measure size")
   apply simp
  apply (auto dest: size_sub_mixture)
  done

definition cache_consistent :: "set_iteration \<Rightarrow> mixture set \<Rightarrow> leaf_cache \<Rightarrow> bool" where
  "cache_consistent si U cache =
     (\<forall>m \<in> U. \<forall>val. cache (mixture_id m) = Some val \<longrightarrow> val = leaf_tasks si m)"

text \<open>
  Two generators that draw the same pair from every integer seed: two calls of
  \<^verbatim>\<open>_split_seed\<close> in one run, or in two runs, differ at most in what
  \<^verbatim>\<open>RandomState(None)\<close> draws.
\<close>

definition same_on_integer_seeds :: "random_state \<Rightarrow> random_state \<Rightarrow> bool" where
  "same_on_integer_seeds rs1 rs2 = (\<forall>s. rs1 (Some s) = rs2 (Some s))"

text \<open>
  The seeds a lazy dataset graph holds: those handed to the preprocessors and those handed
  to the shuffles, in the order of the calls.
\<close>

fun transform_seeds :: "lazy_ds \<Rightarrow> int option list" where
  "transform_seeds (SourceLazyMapDataset src) = []"
| "transform_seeds (ShardLazyMapDataset ds shard_opts) = transform_seeds ds"
| "transform_seeds (LazyDatasetTransform prep ds seed) = transform_seeds ds @ [seed]"
| "transform_seeds (ShuffleLazyMapDataset ds seed) = transform_seeds ds"
| "transform_seeds (ConcatLazyMapDataset dss) = concat (map transform_seeds dss)"
| "transform_seeds (MixedLazyMapDataset dss proportions stop) = concat (map transform_seeds dss)"
| "transform_seeds (RepeatLazyMapDataset ds num_epochs) = transform_seeds ds"

fun shuffle_seeds :: "lazy_ds \<Rightarrow> int list" where
  "shuffle_seeds (SourceLazyMapDataset src) = []"
| "shuffle_seeds (ShardLazyMapDataset ds shard_opts) = shuffle_seeds ds"
| "shuffle_seeds (LazyDatasetTransform prep ds seed) = shuffle_seeds ds"
| "shuffle_seeds (ShuffleLazyMapDataset ds seed) = shuffle_seeds ds @ [seed]"
| "shuffle_seeds (ConcatLazyMapDataset dss) = concat (map shuffle_seeds dss)"
| "shuffle_seeds (MixedLazyMapDataset dss proportions stop) = concat (map shuffle_seeds dss)"
| "shuffle_seeds (RepeatLazyMapDataset ds num_epochs) = shuffle_seeds ds"

text \<open>
  The seed tree of the specification. \<open>epoch_seed rs seed j\<close> is the running epoch seed
  before epoch \<open>j\<close>; splitting it gives the next epoch seed and the epoch's preprocessing
  seed, whose split gives the seed of the epoch's first preprocessor and the shuffle seed;
  each further preprocessor gets the first half of the split of its predecessor's seed.
  \<open>seed_in_range\<close> is the range of \<^verbatim>\<open>randint(0, 2**16 - 1)\<close>, \<open>seed_accepted\<close> the
  seeds that \<^verbatim>\<open>RandomState\<close> accepts, and \<open>epoch_count\<close> the number of epoch replicas.
\<close>

fun epoch_seed :: "random_state \<Rightarrow> int option \<Rightarrow> nat \<Rightarrow> int option" where
  "epoch_seed rs seed 0 = seed"
| "epoch_seed rs seed (Suc j) = epoch_seed rs (Some (fst (rs seed))) j"

definition prep_seed_of :: "random_state \<Rightarrow> int option \<Rightarrow> int" where
  "prep_seed_of rs e = fst (rs (Some (snd (rs e))))"

definition shuffle_seed_of :: "random_state \<Rightarrow> int option \<Rightarrow> int" where
  "shuffle_seed_of rs e = snd (rs (Some (snd (rs e))))"

fun prep_seed_chain :: "random_state \<Rightarrow> nat \<Rightarrow> int \<Rightarrow> int list" where
  "prep_seed_chain rs 0 s = []"
| "prep_seed_chain rs (Suc n) s = s # prep_seed_chain rs n (fst (rs (Some s)))"

definition seed_in_range :: "int \<Rightarrow> bool" where
  "seed_in_range s = (0 \<le> s \<and> s < 2 ^ 16 - 1)"

definition seed_accepted :: "int option \<Rightarrow> bool" where
  "seed_accepted seed = (case seed of None \<Rightarrow> True | Some s \<Rightarrow> 0 \<le> s \<and> s \<le> 2 ^ 32 - 1)"

definition epoch_count :: "int option \<Rightarrow> nat" where
  "epoch_count num_epochs = (if truthy num_epochs then nat (the num_epochs) else 1)"

section \<open>Concrete objects\<close>

text \<open>
  A source whose every split is the grain source 7 with three records, a task over it whose
  list of preprocessors lives at address 0, and a store holding that list.
\<close>

definition example_source :: data_source where
  "example_source =
     \<lparr>src_get_data_source = (\<lambda>_. Inr 7), src_num_input_examples = (\<lambda>_. Inr (Some 3))\<rparr>"

definition example_task :: task where
  "example_task = Task 1 ''a'' (Some example_source) (Some 0)"

definition example_task_b :: task where
  "example_task_b = Task 2 ''b'' (Some example_source) (Some 1)"

definition example_task_c :: task where
  "example_task_c = Task 3 ''c'' (Some example_source) (Some 2)"

definition example_heap :: heap where
  "example_heap = [[Transformation 1, Transformation 2], [], [Transformation 4]]"

text \<open>
  The nested mixtures of the specification's example: \<open>example_mixture\<close> holds the task
  \<open>a\<close> at weight 1 and \<open>example_sub_mixture\<close> at weight 2, which holds \<open>b\<close> at
  weight 3 and \<open>c\<close> at weight 1.
\<close>

definition example_sub_mixture :: mixture where
  "example_sub_mixture =
     Mixture 4 ''n'' [(2, CTask example_task_b), (3, CTask example_task_c)] [(2, 3), (3, 1)]"

definition example_mixture :: mixture where
  "example_mixture =
     Mixture 5 ''m'' [(1, CTask example_task), (4, CMixture example_sub_mixture)]
       [(1, 1), (4, 2)]"

text \<open>One iteration order of a set: each object at its last occurrence.\<close>

primrec example_set_iteration :: set_iteration where
  "example_set_iteration [] = []"
| "example_set_iteration (t # ts) =
     (if task_id t \<in> task_id ` set ts then example_set_iteration ts
      else t # example_set_iteration ts)"

definition example_converter :: feature_converter where
  "example_converter = (\<lambda>_. Inr [Transformation 3])"

text \<open>
  An engine that accepts every call and returns the syntax tree of the call, but for its
  sampler, which refuses to shuffle without a seed; materializing an iterator yields one
  record per operation of its loader, each the number of the operations.
\<close>

definition example_materialize :: "lazy_ds dataset_iterator \<Rightarrow> error + nat list" where
  "example_materialize it =
     (case it of PyGrainDatasetIteratorWrapper (DataLoader _ _ ops) \<Rightarrow>
        Inr (replicate (length ops) (length ops)))"

definition example_engine :: "(lazy_ds, preprocessor, nat) engine" where
  "example_engine =
     \<lparr>new_IndexSampler =
        (\<lambda>num_records shard_opts shuffle num_epochs seed.
           if shuffle \<and> seed = None
           then Inl (ValueError ''Shuffling requires specifying a seed.'')
           else Inr (IndexSampler num_records shard_opts shuffle num_epochs seed)),
      new_BatchOperation = (\<lambda>batch_size drop_remainder.
           Inr (BatchOperation batch_size drop_remainder)),
      new_Batch = (\<lambda>batch_size drop_remainder. Inr (Batch batch_size drop_remainder)),
      materialize = example_materialize,
      new_SourceLazyMapDataset = (\<lambda>src. Inr (SourceLazyMapDataset src)),
      new_ShardLazyMapDataset = (\<lambda>ds shard_opts. Inr (ShardLazyMapDataset ds shard_opts)),
      new_LazyDatasetTransform = (\<lambda>prep. Inr prep),
      call_LazyDatasetTransform = (\<lambda>prep ds seed. Inr (LazyDatasetTransform prep ds seed)),
      new_ShuffleLazyMapDataset = (\<lambda>ds seed. Inr (ShuffleLazyMapDataset ds seed)),
      new_ConcatLazyMapDataset = (\<lambda>dss. Inr (ConcatLazyMapDataset dss)),
      new_MixedLazyMapDataset = (\<lambda>datasets proportions stop_on_empty_dataset.
           Inr (MixedLazyMapDataset datasets proportions stop_on_empty_dataset)),
      new_RepeatLazyMapDataset = (\<lambda>ds num_epochs. Inr (RepeatLazyMapDataset ds num_epochs)),
      len = (\<lambda>ds. Inr 3)\<rparr>"

text \<open>A generator whose draws lie in the range of \<^verbatim>\<open>randint(0, 2**16 - 1)\<close>.\<close>

definition example_random_state :: random_state where
  "example_random_state seed =
     (case seed of
        None \<Rightarrow> (0, 1)
      | Some k \<Rightarrow> ((k + 1) mod 65535, (2 * k + 1) mod 65535))"

text \<open>A second generator, which differs from the first when seeded with \<^verbatim>\<open>None\<close> only.\<close>

definition example_random_state_2 :: random_state where
  "example_random_state_2 seed =
     (case seed of
        None \<Rightarrow> (0, 5)
      | Some k \<Rightarrow> ((k + 1) mod 65535, (2 * k + 1) mod 65535))"

text \<open>A store whose one list holds 65536 preprocessors.\<close>

definition long_chain_heap :: heap where
  "long_chain_heap = [replicate 65536 (Transformation 1)]"

section \<open>Task: the step-by-step trace\<close>

lemma upt_from_one_Cons: "[Suc 0..<Suc (Suc n)] = Suc 0 # map Suc [Suc 0..<Suc n]"
proof -
  have "[Suc 0..<Suc (Suc n)] = Suc 0 # [Suc (Suc 0)..<Suc (Suc n)]"
    by (simp add: upt_conv_Cons del: upt_Suc)
  also have "[Suc (Suc 0)..<Suc (Suc n)] = map Suc [Suc 0..<Suc n]"
    by (simp only: map_Suc_upt)
  finally show ?thesis .
qed

lemma upt_from_zero_Cons: "[0..<Suc n] = 0 # [Suc 0..<Suc n]"
  by (simp add: upt_conv_Cons del: upt_Suc)

lemma accumulate_steps_collect:
  "accumulate_steps ld ops acc res =
     (case collect (map (\<lambda>i. ld (acc @ take i ops)) [Suc 0..<Suc (length ops)]) of
        Inl e \<Rightarrow> Inl e
      | Inr rs \<Rightarrow> Inr (res @ rs))"
proof (induction ops arbitrary: acc res)
  case Nil
  show ?case by simp
next
  case (Cons p ops)
  have "map (\<lambda>i. ld (acc @ take i (p # ops))) [Suc 0..<Suc (length (p # ops))] =
        ld (acc @ [p]) # map (\<lambda>i. ld ((acc @ [p]) @ take i ops)) [Suc 0..<Suc (length ops)]"
    by (simp add: upt_from_one_Cons comp_def del: upt_Suc)
  then show ?case
    using Cons.IH [of "acc @ [p]"]
    by (simp add: Let_def split: sum.split del: upt_Suc)
qed

lemma step_trace_unfold:
  "step_trace eng src sampler chain =
     (case materialize eng (load_data src sampler []) of
        Inl e \<Rightarrow> Inl e
      | Inr records_step0 \<Rightarrow>
          accumulate_steps (\<lambda>ops. materialize eng (load_data src sampler ops)) chain []
            [records_step0])"
proof -
  have "map (\<lambda>i. materialize eng (load_data src sampler (take i chain))) [0..<Suc (length chain)]
      = materialize eng (load_data src sampler [])
        # map (\<lambda>i. materialize eng (load_data src sampler (take i chain)))
            [Suc 0..<Suc (length chain)]"
    by (subst upt_from_zero_Cons) simp
  then show ?thesis
    by (simp add: step_trace_def accumulate_steps_collect split: sum.split del: upt_Suc)
qed

lemma collect_all:
  assumes "\<forall>i < length xs. \<exists>v. xs ! i = Inr v"
  shows "\<exists>vs. collect xs = Inr vs \<and> length vs = length xs \<and> (\<forall>i < length xs. xs ! i = Inr (vs ! i))"
  using assms
proof (induction xs)
  case Nil
  show ?case by simp
next
  case (Cons x xs)
  from Cons.prems have "\<exists>v. (x # xs) ! 0 = Inr v" by blast
  then obtain v where x: "x = Inr v" by auto
  have "\<forall>i < length xs. \<exists>v. xs ! i = Inr v"
  proof (intro allI impI)
    fix i assume "i < length xs"
    then have "Suc i < length (x # xs)" by simp
    with Cons.prems have "\<exists>v. (x # xs) ! Suc i = Inr v" by blast
    then show "\<exists>v. xs ! i = Inr v" by simp
  qed
  from Cons.IH [OF this] obtain vs where vs: "collect xs = Inr vs" "length vs = length xs"
    "\<forall>i < length xs. xs ! i = Inr (vs ! i)"
    by blast
  have "\<forall>i < length (x # xs). (x # xs) ! i = Inr ((v # vs) ! i)"
  proof (intro allI impI)
    fix i assume "i < length (x # xs)"
    then show "(x # xs) ! i = Inr ((v # vs) ! i)"
      using vs(3) x by (cases i) simp_all
  qed
  with vs(1,2) x show ?case by simp
qed

lemma extend_ops_copy:
  assumes "converter_transforms fc sl = Inr ts" "batch_operations eng b = Inr bs"
  shows "extend_ops eng (h @ [xs]) (length h) sl fc b = (Inr (), h @ [combined_chain xs ts bs])"
proof (cases fc)
  case None
  with assms show ?thesis
    by (auto simp: extend_ops_def converter_transforms_def batch_operations_def list_append_def
        combined_chain_def split: if_splits sum.splits)
next
  case (Some f)
  with assms show ?thesis
    by (auto simp: extend_ops_def converter_transforms_def batch_operations_def list_append_def
        list_extend_def combined_chain_def split: if_splits sum.splits)
qed

text \<open>
  \<^verbatim>\<open>get_dataset_by_step\<close> builds its sampler first: what the sampler raises, the call
  raises; with the sampler built and the task's source and preprocessors set, it returns
  the trace of the combined chain and leaves a copy of the chain in the store.
\<close>

lemma get_dataset_by_step_sampler_error:
  assumes "new_IndexSampler eng (Some (validate_num_records n)) NoSharding sh (Some 1) sd = Inl e"
  shows "get_dataset_by_step eng h t n sl sp fc b sh sd = (Inl e, h)"
  using assms by (simp add: get_dataset_by_step_def)

lemma get_dataset_by_step_eq:
  assumes "new_IndexSampler eng (Some (validate_num_records n)) NoSharding sh (Some 1) sd
             = Inr sampler"
    and "source t = Some s" "src_get_data_source s sp = Inr g" "preprocessors t = Some a"
    and "converter_transforms fc sl = Inr ts" "batch_operations eng b = Inr bs"
  shows "get_dataset_by_step eng h t n sl sp fc b sh sd =
    (step_trace eng g sampler (combined_chain (h ! a) ts bs),
     h @ [combined_chain (h ! a) ts bs])"
proof -
  have ext: "extend_ops eng (h @ [h ! a]) (length h) sl fc b
      = (Inr (), h @ [combined_chain (h ! a) ts bs])"
    by (rule extend_ops_copy [OF assms(5,6)])
  show ?thesis
    using assms(1-4)
    by (simp add: get_dataset_by_step_def get_data_source_for_split_def get_preprocessors_def
        list_copy_def ext step_trace_unfold Let_def split: sum.split)
qed

text \<open>
  Claim C4. Let the sampler be built, the source and the preprocessors of the task be set,
  and the combined operation chain (own preprocessors, converter transforms, batch
  operation) have length \<open>k\<close>; let each of the \<open>k + 1\<close> materializations return. Then
  \<^verbatim>\<open>get_dataset_by_step\<close> returns exactly \<open>k + 1\<close> steps: step 0 is the sample
  materialized with no operation, and step \<open>i\<close>, for \<open>1 \<le> i \<le> k\<close>, is the sample
  materialized anew from the source and the sampler with exactly the first \<open>i\<close>
  operations of the chain, in chain order.
\<close>

theorem get_dataset_by_step_trace:
  assumes smp: "new_IndexSampler eng (Some (validate_num_records n)) NoSharding sh (Some 1) sd
             = Inr sampler"
    and src: "source t = Some s" "src_get_data_source s sp = Inr g"
    and preps: "preprocessors t = Some a"
    and ext: "converter_transforms fc sl = Inr ts" "batch_operations eng b = Inr bs"
    and mats: "\<forall>i \<le> length (combined_chain (h ! a) ts bs).
        \<exists>recs. materialize eng (load_data g sampler (take i (combined_chain (h ! a) ts bs)))
                  = Inr recs"
  shows "\<exists>steps h'.
     get_dataset_by_step eng h t n sl sp fc b sh sd = (Inr steps, h') \<and>
     length steps = length (combined_chain (h ! a) ts bs) + 1 \<and>
     materialize eng (load_data g sampler []) = Inr (steps ! 0) \<and>
     (\<forall>i. 1 \<le> i \<and> i \<le> length (combined_chain (h ! a) ts bs) \<longrightarrow>
        materialize eng (load_data g sampler (take i (combined_chain (h ! a) ts bs)))
          = Inr (steps ! i))"
proof -
  let ?chain = "combined_chain (h ! a) ts bs"
  let ?xs = "map (\<lambda>i. materialize eng (load_data g sampler (take i ?chain)))
               [0..<Suc (length ?chain)]"
  have nth: "?xs ! i = materialize eng (load_data g sampler (take i ?chain))"
    if "i \<le> length ?chain" for i
  proof -
    from that have "i < length [0..<Suc (length ?chain)]" by simp
    then have "?xs ! i = materialize eng (load_data g sampler
        (take ([0..<Suc (length ?chain)] ! i) ?chain))"
      by (rule nth_map)
    moreover have "[0..<Suc (length ?chain)] ! i = i"
      using that by (simp del: upt_Suc)
    ultimately show ?thesis by simp
  qed
  have "\<forall>i < length ?xs. \<exists>v. ?xs ! i = Inr v"
  proof (intro allI impI)
    fix i assume "i < length ?xs"
    then have i: "i \<le> length ?chain" by simp
    with mats nth [OF i] show "\<exists>v. ?xs ! i = Inr v" by simp
  qed
  from collect_all [OF this] obtain steps where
    c: "collect ?xs = Inr steps" and len: "length steps = length ?xs"
    and all: "\<forall>i < length ?xs. ?xs ! i = Inr (steps ! i)"
    by blast
  have run: "get_dataset_by_step eng h t n sl sp fc b sh sd = (Inr steps, h @ [?chain])"
    using get_dataset_by_step_eq [OF smp src preps ext, of h] c
    by (simp add: step_trace_def)
  have pick: "materialize eng (load_data g sampler (take i ?chain)) = Inr (steps ! i)"
    if "i \<le> length ?chain" for i
  proof -
    from that have "i < length ?xs" by simp
    with all have "?xs ! i = Inr (steps ! i)" by blast
    with nth [OF that] show ?thesis by simp
  qed
  have zero: "materialize eng (load_data g sampler []) = Inr (steps ! 0)"
    using pick [of 0] by simp
  from run len zero pick show ?thesis by simp
qed

lemma example_chain:
  "combined_chain (example_heap ! 0) [Transformation 3] [BatchOperation 8 False]
      = [Transformation 1, Transformation 2, Transformation 3, BatchOperation 8 False]"
  by (simp add: combined_chain_def example_heap_def)

theorem get_dataset_by_step_trace_witness:
  "\<exists>steps h'.
     get_dataset_by_step example_engine example_heap example_task 5 None ''train''
       (Some example_converter) (Some 8) True (Some 0) = (Inr steps, h') \<and>
     length steps = 4 + 1 \<and>
     steps ! 0 = [] \<and>
     steps ! 4 = [4, 4, 4, 4]"
proof -
  let ?sampler = "IndexSampler (Some 5) NoSharding True (Some 1) (Some 0)"
  let ?chain = "combined_chain (example_heap ! 0) [Transformation 3] [BatchOperation 8 False]"
  have smp: "new_IndexSampler example_engine (Some (validate_num_records 5)) NoSharding True
      (Some 1) (Some 0) = Inr ?sampler"
    by (simp add: example_engine_def validate_num_records_def MAX_NUM_RECORDS_TO_INSPECT_def)
  have src: "source example_task = Some example_source"
      "src_get_data_source example_source ''train'' = Inr 7"
    by (simp_all add: example_task_def example_source_def)
  have preps: "preprocessors example_task = Some 0"
    by (simp add: example_task_def)
  have ext: "converter_transforms (Some example_converter) None = Inr [Transformation 3]"
      "batch_operations example_engine (Some 8) = Inr [BatchOperation 8 False]"
    by (simp_all add: converter_transforms_def example_converter_def batch_operations_def
        truthy_def example_engine_def)
  have mat: "materialize example_engine (load_data 7 ?sampler ops)
      = Inr (replicate (length ops) (length ops))" for ops
    by (simp add: example_engine_def example_materialize_def load_data_def)
  have mats: "\<forall>i \<le> length ?chain.
        \<exists>recs. materialize example_engine (load_data 7 ?sampler (take i ?chain)) = Inr recs"
    by (simp add: mat)
  from get_dataset_by_step_trace [OF smp src preps ext mats]
  obtain steps h' where
    run: "get_dataset_by_step example_engine example_heap example_task 5 None ''train''
       (Some example_converter) (Some 8) True (Some 0) = (Inr steps, h')" and
    len: "length steps = length ?chain + 1" and
    zero: "materialize example_engine (load_data 7 ?sampler []) = Inr (steps ! 0)" and
    later: "\<forall>i. 1 \<le> i \<and> i \<le> length ?chain \<longrightarrow>
        materialize example_engine (load_data 7 ?sampler (take i ?chain)) = Inr (steps ! i)"
    by blast
  from zero have z: "steps ! 0 = []"
    by (simp add: mat)
  have "(1::nat) \<le> 4 \<and> 4 \<le> length ?chain"
    by (simp add: example_chain)
  with later have "materialize example_engine (load_data 7 ?sampler (take 4 ?chain))
      = Inr (steps ! 4)"
    by blast
  moreover have "take 4 ?chain
      = [Transformation 1, Transformation 2, Transformation 3, BatchOperation 8 False]"
    by (simp add: example_chain)
  moreover have "materialize example_engine (load_data 7 ?sampler
      [Transformation 1, Transformation 2, Transformation 3, BatchOperation 8 False])
      = Inr [4, 4, 4, 4]"
    by (simp add: example_engine_def example_materialize_def load_data_def)
  ultimately have four: "steps ! 4 = [4, 4, 4, 4]"
    by simp
  from run len z four show ?thesis
    by (simp add: example_chain)
qed

text \<open>
  Claim C5. \<^verbatim>\<open>get_dataset_by_step\<close> clamps \<^verbatim>\<open>num_records\<close> and raises nothing for a
  value out of range: below 1 it behaves as for \<^verbatim>\<open>DEFAULT_NUM_RECORDS_TO_INSPECT\<close>, above
  \<^verbatim>\<open>MAX_NUM_RECORDS_TO_INSPECT\<close> as for \<^verbatim>\<open>MAX_NUM_RECORDS_TO_INSPECT\<close>, and a value in
  range is the one the sampler is built with: the call raises what the sampler raises for
  that value, and otherwise returns the trace over that sampler.
\<close>

theorem get_dataset_by_step_clamps:
  "(num_records < 1 \<longrightarrow>
      get_dataset_by_step eng h t num_records sl sp fc b sh sd =
      get_dataset_by_step eng h t DEFAULT_NUM_RECORDS_TO_INSPECT sl sp fc b sh sd) \<and>
   (num_records > MAX_NUM_RECORDS_TO_INSPECT \<longrightarrow>
      get_dataset_by_step eng h t num_records sl sp fc b sh sd =
      get_dataset_by_step eng h t MAX_NUM_RECORDS_TO_INSPECT sl sp fc b sh sd) \<and>
   (1 \<le> num_records \<and> num_records \<le> MAX_NUM_RECORDS_TO_INSPECT \<longrightarrow>
      (\<forall>e. new_IndexSampler eng (Some num_records) NoSharding sh (Some 1) sd = Inl e \<longrightarrow>
           get_dataset_by_step eng h t num_records sl sp fc b sh sd = (Inl e, h)) \<and>
      (\<forall>sampler s g a ts bs.
           new_IndexSampler eng (Some num_records) NoSharding sh (Some 1) sd = Inr sampler \<and>
           source t = Some s \<and> src_get_data_source s sp = Inr g \<and>
           preprocessors t = Some a \<and>
           converter_transforms fc sl = Inr ts \<and> batch_operations eng b = Inr bs \<longrightarrow>
           get_dataset_by_step eng h t num_records sl sp fc b sh sd =
             (step_trace eng g sampler (combined_chain (h ! a) ts bs),
              h @ [combined_chain (h ! a) ts bs])))"
proof -
  have v: "validate_num_records (validate_num_records m) = validate_num_records m" for m
    by (simp add: validate_num_records_def DEFAULT_NUM_RECORDS_TO_INSPECT_def
        MAX_NUM_RECORDS_TO_INSPECT_def)
  have same: "get_dataset_by_step eng h t m sl sp fc b sh sd =
      get_dataset_by_step eng h t (validate_num_records m) sl sp fc b sh sd" for m
    by (simp add: get_dataset_by_step_def v)
  have lo: "get_dataset_by_step eng h t num_records sl sp fc b sh sd =
      get_dataset_by_step eng h t DEFAULT_NUM_RECORDS_TO_INSPECT sl sp fc b sh sd"
    if "num_records < 1"
  proof -
    from that have "validate_num_records num_records = DEFAULT_NUM_RECORDS_TO_INSPECT"
      by (simp add: validate_num_records_def)
    with same [of num_records] show ?thesis by simp
  qed
  have hi: "get_dataset_by_step eng h t num_records sl sp fc b sh sd =
      get_dataset_by_step eng h t MAX_NUM_RECORDS_TO_INSPECT sl sp fc b sh sd"
    if "num_records > MAX_NUM_RECORDS_TO_INSPECT"
  proof -
    from that have "validate_num_records num_records = MAX_NUM_RECORDS_TO_INSPECT"
      by (simp add: validate_num_records_def MAX_NUM_RECORDS_TO_INSPECT_def)
    with same [of num_records] show ?thesis by simp
  qed
  have mid: "validate_num_records num_records = num_records"
    if "1 \<le> num_records \<and> num_records \<le> MAX_NUM_RECORDS_TO_INSPECT"
    using that by (simp add: validate_num_records_def)
  have err: "get_dataset_by_step eng h t num_records sl sp fc b sh sd = (Inl e, h)"
    if "1 \<le> num_records \<and> num_records \<le> MAX_NUM_RECORDS_TO_INSPECT"
      "new_IndexSampler eng (Some num_records) NoSharding sh (Some 1) sd = Inl e" for e
    by (rule get_dataset_by_step_sampler_error) (use that mid in simp)
  have ok: "get_dataset_by_step eng h t num_records sl sp fc b sh sd =
             (step_trace eng g sampler (combined_chain (h ! a) ts bs),
              h @ [combined_chain (h ! a) ts bs])"
    if "1 \<le> num_records \<and> num_records \<le> MAX_NUM_RECORDS_TO_INSPECT"
      "new_IndexSampler eng (Some num_records) NoSharding sh (Some 1) sd = Inr sampler"
      "source t = Some s" "src_get_data_source s sp = Inr g" "preprocessors t = Some a"
      "converter_transforms fc sl = Inr ts" "batch_operations eng b = Inr bs"
    for sampler s g a ts bs
    by (rule get_dataset_by_step_eq) (use that mid in simp_all)
  from lo hi err ok show ?thesis by blast
qed


theorem get_dataset_by_step_clamps_witness:
  "get_dataset_by_step example_engine example_heap example_task 0 None ''train'' None None
     False (Some 0) =
   get_dataset_by_step example_engine example_heap example_task
     DEFAULT_NUM_RECORDS_TO_INSPECT None ''train'' None None False (Some 0) \<and>
   get_dataset_by_step example_engine example_heap example_task 10000 None ''train'' None
     None False (Some 0) =
   get_dataset_by_step example_engine example_heap example_task
     MAX_NUM_RECORDS_TO_INSPECT None ''train'' None None False (Some 0) \<and>
   get_dataset_by_step example_engine example_heap example_task 5 None ''train'' None None
     False (Some 0) =
   (Inr [[], [1], [2, 2]], example_heap @ [[Transformation 1, Transformation 2]]) \<and>
   get_dataset_by_step example_engine example_heap example_task 5 None ''train'' None None
     True None =
   (Inl (ValueError ''Shuffling requires specifying a seed.''), example_heap)"
proof -
  have low: "(0::int) < 1" by simp
  have high: "(10000::int) > MAX_NUM_RECORDS_TO_INSPECT"
    by (simp add: MAX_NUM_RECORDS_TO_INSPECT_def)
  have mid: "(1::int) \<le> 5 \<and> (5::int) \<le> MAX_NUM_RECORDS_TO_INSPECT"
    by (simp add: MAX_NUM_RECORDS_TO_INSPECT_def)
  let ?sampler = "IndexSampler (Some 5) NoSharding False (Some 1) (Some 0)"
  have smp: "new_IndexSampler example_engine (Some 5) NoSharding False (Some 1) (Some 0)
      = Inr ?sampler"
    by (simp add: example_engine_def)
  have bad: "new_IndexSampler example_engine (Some 5) NoSharding True (Some 1) None
      = Inl (ValueError ''Shuffling requires specifying a seed.'')"
    by (simp add: example_engine_def)
  have rest: "source example_task = Some example_source"
      "src_get_data_source example_source ''train'' = Inr 7"
      "preprocessors example_task = Some 0"
      "converter_transforms None None = Inr []"
      "batch_operations example_engine None = Inr []"
    by (simp_all add: example_task_def example_source_def converter_transforms_def
        batch_operations_def truthy_def)
  have chain: "combined_chain (example_heap ! 0) [] [] = [Transformation 1, Transformation 2]"
    by (simp add: combined_chain_def example_heap_def)
  have trace: "step_trace example_engine 7 ?sampler [Transformation 1, Transformation 2]
      = Inr [[], [1], [2, 2]]"
    by (simp add: step_trace_def example_engine_def example_materialize_def load_data_def)
  from get_dataset_by_step_clamps [of 0 example_engine example_heap example_task None
      "''train''" None None False "Some 0"] low
  have one: "get_dataset_by_step example_engine example_heap example_task 0 None ''train'' None
      None False (Some 0) =
    get_dataset_by_step example_engine example_heap example_task
      DEFAULT_NUM_RECORDS_TO_INSPECT None ''train'' None None False (Some 0)"
    by blast
  from get_dataset_by_step_clamps [of 10000 example_engine example_heap example_task None
      "''train''" None None False "Some 0"] high
  have two: "get_dataset_by_step example_engine example_heap example_task 10000 None ''train''
      None None False (Some 0) =
    get_dataset_by_step example_engine example_heap example_task
      MAX_NUM_RECORDS_TO_INSPECT None ''train'' None None False (Some 0)"
    by blast
  from get_dataset_by_step_clamps [of 5 example_engine example_heap example_task None
      "''train''" None None False "Some 0"] mid smp rest
  have "get_dataset_by_step example_engine example_heap example_task 5 None ''train'' None None
      False (Some 0) =
    (step_trace example_engine 7 ?sampler (combined_chain (example_heap ! 0) [] []),
     example_heap @ [combined_chain (example_heap ! 0) [] []])"
    by blast
  then have three: "get_dataset_by_step example_engine example_heap example_task 5 None
      ''train'' None None False (Some 0) =
    (Inr [[], [1], [2, 2]], example_heap @ [[Transformation 1, Transformation 2]])"
    by (simp only: chain trace)
  from get_dataset_by_step_clamps [of 5 example_engine example_heap example_task None
      "''train''" None None True None] mid bad
  have four: "get_dataset_by_step example_engine example_heap example_task 5 None ''train''
      None None True None =
    (Inl (ValueError ''Shuffling requires specifying a seed.''), example_heap)"
    by blast
  from one two three four show ?thesis by blast
qed

section \<open>Mixture: construction, leaf tasks and proportions\<close>

lemma example_set_iteration_ids:
  "task_id ` set (example_set_iteration xs) = task_id ` set xs"
  by (induction xs) auto

lemma example_set_iteration_subset: "set (example_set_iteration xs) \<subseteq> set xs"
  by (induction xs) auto

lemma example_set_iteration_distinct: "distinct (map task_id (example_set_iteration xs))"
proof (induction xs)
  case Nil
  show ?case by simp
next
  case (Cons t ts)
  have "task_id t \<notin> task_id ` set (example_set_iteration ts)" if "task_id t \<notin> task_id ` set ts"
    using that by (simp add: example_set_iteration_ids)
  with Cons show ?case by simp
qed

lemma example_set_iteration_ok: "set_iteration_ok example_set_iteration"
  unfolding set_iteration_ok_def
  using example_set_iteration_ids example_set_iteration_subset example_set_iteration_distinct
  by simp

lemma leaf_tasks_set:
  "set (leaf_tasks si (Mixture self n comps props)) =
     set (si (tasks_among (map snd comps)
              @ concat (map (leaf_tasks si) (mixtures_among (map snd comps)))))"
  by (simp add: Let_def)

lemma leaf_tasks_subset:
  assumes "set_iteration_ok si"
  shows "set (leaf_tasks si m) \<subseteq> reachable_tasks m"
  using assms
proof (induction si m rule: leaf_tasks.induct)
  case (1 si self n comps props)
  have sub: "set (si xs) \<subseteq> set xs" for xs
    using "1.prems" by (simp add: set_iteration_ok_def)
  have "set (leaf_tasks si (Mixture self n comps props))
        \<subseteq> set (tasks_among (map snd comps)
              @ concat (map (leaf_tasks si) (mixtures_among (map snd comps))))"
    unfolding leaf_tasks_set by (rule sub)
  also have "\<dots> \<subseteq> reachable_tasks (Mixture self n comps props)"
    using "1.IH" [OF refl refl refl _ "1.prems"] by auto
  finally show ?case .
qed

lemma leaf_tasks_ids:
  assumes "set_iteration_ok si"
  shows "task_id ` set (leaf_tasks si m) = task_id ` reachable_tasks m"
  using assms
proof (induction si m rule: leaf_tasks.induct)
  case (1 si self n comps props)
  have ids: "task_id ` set (si xs) = task_id ` set xs" for xs
    using "1.prems" by (simp add: set_iteration_ok_def)
  have IH: "task_id ` set (leaf_tasks si m) = task_id ` reachable_tasks m"
    if "m \<in> set (mixtures_among (map snd comps))" for m
    using "1.IH" [OF refl refl refl that "1.prems"] .
  have "task_id ` set (leaf_tasks si (Mixture self n comps props))
        = task_id ` set (tasks_among (map snd comps)
              @ concat (map (leaf_tasks si) (mixtures_among (map snd comps))))"
    unfolding leaf_tasks_set by (rule ids)
  also have "\<dots> = task_id ` set (tasks_among (map snd comps))
        \<union> (\<Union>m \<in> set (mixtures_among (map snd comps)). task_id ` set (leaf_tasks si m))"
    by (simp add: image_Un image_UN)
  also have "\<dots> = task_id ` set (tasks_among (map snd comps))
        \<union> (\<Union>m \<in> set (mixtures_among (map snd comps)). task_id ` reachable_tasks m)"
    using IH by simp
  also have "\<dots> = task_id ` reachable_tasks (Mixture self n comps props)"
    by (simp add: image_Un image_UN)
  finally show ?case .
qed

lemma leaf_tasks_distinct:
  assumes "set_iteration_ok si"
  shows "distinct (map task_id (leaf_tasks si m))"
proof (cases m)
  case (Mixture self n comps props)
  have d: "distinct (map task_id (si xs))" for xs
    using assms by (simp add: set_iteration_ok_def)
  have "distinct (map task_id (sort_key name (si xs)))" for xs
    using d [of xs] by (simp add: distinct_map)
  then show ?thesis
    unfolding Mixture by (simp add: Let_def)
qed

lemma leaf_tasks_sorted: "sorted (map name (leaf_tasks si m))"
  by (cases m) (simp add: Let_def)

lemma is_in_leaf_tasks:
  "set_iteration_ok si \<Longrightarrow>
   is_in x (leaf_tasks si m) = (hash x \<in> task_id ` reachable_tasks m)"
  by (simp add: is_in_def leaf_tasks_ids)


lemma update_new_key: "k \<notin> fst ` set d \<Longrightarrow> AList.update k v d = d @ [(k, v)]"
  by (induction d) auto

lemma fold_update_distinct:
  "distinct (map fst (d @ kvs)) \<Longrightarrow>
   fold (\<lambda>(k, v) d. AList.update k v d) kvs d = d @ kvs"
proof (induction kvs arbitrary: d)
  case Nil
  show ?case by simp
next
  case (Cons kv kvs)
  obtain k v where kv: "kv = (k, v)" by (cases kv)
  from Cons.prems have new: "k \<notin> fst ` set d" by (auto simp: kv)
  from Cons.prems have "distinct (map fst ((d @ [(k, v)]) @ kvs))" by (simp add: kv)
  from Cons.IH [OF this] show ?case by (simp add: kv update_new_key [OF new])
qed

lemma dict_of_distinct: "distinct (map fst kvs) \<Longrightarrow> dict_of kvs = kvs"
  using fold_update_distinct [of "[]" kvs] by (simp add: dict_of_def)

lemma hashes_check:
  "(card (set (map hash tasks)) \<noteq> length tasks) = (\<not> distinct (map hash tasks))"
  using card_distinct [of "map hash tasks"] distinct_card [of "map hash tasks"] by auto

lemma Mixture_init_unfold:
  "Mixture_init self nm tasks proportions =
     (if length tasks \<noteq> length proportions
      then Inl (ValueError (''Mixture '' @ nm @
                  '' must have same number of tasks and proportions.''))
      else if \<not> distinct (map hash tasks)
           then Inl (ValueError (''Mixture '' @ nm @ '' has duplicate tasks.''))
           else Inr (Mixture self nm (dict_of (zip (map hash tasks) tasks))
                          (dict_of (zip (map hash tasks) proportions))))"
  unfolding Mixture_init_def Let_def hashes_check ..

lemma Mixture_init_ok:
  assumes "length tasks = length proportions" "distinct (map hash tasks)"
  shows "Mixture_init self nm tasks proportions =
     Inr (Mixture self nm (zip (map hash tasks) tasks) (zip (map hash tasks) proportions))"
proof -
  have "dict_of (zip (map hash tasks) tasks) = zip (map hash tasks) tasks"
    by (rule dict_of_distinct) (use assms in simp)
  moreover have "dict_of (zip (map hash tasks) proportions) = zip (map hash tasks) proportions"
    by (rule dict_of_distinct) (use assms in simp)
  ultimately show ?thesis
    unfolding Mixture_init_unfold using assms by simp
qed

lemma map_of_zip_hash:
  assumes "distinct (map hash tasks)" "i < length tasks" "length vs = length tasks"
  shows "map_of (zip (map hash tasks) vs) (hash (tasks ! i)) = Some (vs ! i)"
proof -
  have "map_of (zip (map hash tasks) vs) (map hash tasks ! i) = Some (vs ! i)"
    by (rule map_of_zip_nth) (use assms in simp_all)
  then show ?thesis using assms by simp
qed

text \<open>
  Claim C6. Constructing a Mixture raises (a \<^verbatim>\<open>ValueError\<close>, the specification's
  ConfigurationError) exactly when the two sequences differ in length or two components
  have the same identity hash; otherwise it succeeds, and the two dictionaries hold the
  components and the proportions under the components' hashes, in order, each hash once.
\<close>

theorem Mixture_init_cases:
  "(if length tasks \<noteq> length proportions \<or> \<not> distinct (map hash tasks)
    then \<exists>msg. Mixture_init self nm tasks proportions = Inl (ValueError msg)
    else \<exists>m. Mixture_init self nm tasks proportions = Inr m \<and>
           tasks_or_mixtures m = tasks \<and>
           map fst (tasks_or_mixtures_dict m) = map hash tasks \<and>
           map fst (proportions_dict m) = map hash tasks \<and>
           map snd (proportions_dict m) = proportions \<and>
           distinct (map fst (proportions_dict m)) \<and>
           (\<forall>i < length tasks.
              map_of (tasks_or_mixtures_dict m) (hash (tasks ! i)) = Some (tasks ! i) \<and>
              map_of (proportions_dict m) (hash (tasks ! i)) = Some (proportions ! i)))"
proof (cases "length tasks \<noteq> length proportions \<or> \<not> distinct (map hash tasks)")
  case True
  then show ?thesis
    unfolding Mixture_init_unfold by auto
next
  case False
  then have len: "length tasks = length proportions" and dist: "distinct (map hash tasks)"
    by simp_all
  let ?m = "Mixture self nm (zip (map hash tasks) tasks) (zip (map hash tasks) proportions)"
  have init: "Mixture_init self nm tasks proportions = Inr ?m"
    by (rule Mixture_init_ok [OF len dist])
  have "tasks_or_mixtures ?m = tasks"
    by (simp add: tasks_or_mixtures_def)
  moreover have "map fst (proportions_dict ?m) = map hash tasks"
    using len by simp
  moreover have "map snd (proportions_dict ?m) = proportions"
    using len by simp
  moreover have "distinct (map fst (proportions_dict ?m))"
    using len dist by simp
  moreover have "\<forall>i < length tasks.
              map_of (tasks_or_mixtures_dict ?m) (hash (tasks ! i)) = Some (tasks ! i) \<and>
              map_of (proportions_dict ?m) (hash (tasks ! i)) = Some (proportions ! i)"
  proof (intro allI impI conjI)
    fix i assume i: "i < length tasks"
    show "map_of (tasks_or_mixtures_dict ?m) (hash (tasks ! i)) = Some (tasks ! i)"
      using map_of_zip_hash [OF dist i refl] by simp
    show "map_of (proportions_dict ?m) (hash (tasks ! i)) = Some (proportions ! i)"
      using map_of_zip_hash [OF dist i len [symmetric]] by simp
  qed
  ultimately show ?thesis
    using False init by simp
qed

theorem Mixture_init_cases_witness:
  "(\<exists>msg. Mixture_init 5 ''m'' [CTask example_task, CTask example_task_b] [1 / 2]
            = Inl (ValueError msg)) \<and>
   (\<exists>msg. Mixture_init 5 ''m'' [CTask example_task, CTask example_task] [1, 1]
            = Inl (ValueError msg)) \<and>
   (\<exists>m. Mixture_init 4 ''n'' [CTask example_task_b, CTask example_task_c] [3, 1] = Inr m \<and>
        map_of (proportions_dict m) (hash (CTask example_task_c)) = Some 1)"
proof -
  have one: "\<exists>msg. Mixture_init 5 ''m'' [CTask example_task, CTask example_task_b] [1 / 2]
            = Inl (ValueError msg)"
    using Mixture_init_cases [of "[CTask example_task, CTask example_task_b]" "[1 / 2]" 5 "''m''"]
    by simp
  have two: "\<exists>msg. Mixture_init 5 ''m'' [CTask example_task, CTask example_task] [1, 1]
            = Inl (ValueError msg)"
    using Mixture_init_cases [of "[CTask example_task, CTask example_task]" "[1, 1]" 5 "''m''"]
    by simp
  have three: "\<exists>m. Mixture_init 4 ''n'' [CTask example_task_b, CTask example_task_c] [3, 1] = Inr m \<and>
        map_of (proportions_dict m) (hash (CTask example_task_c)) = Some 1"
  proof -
    let ?tasks = "[CTask example_task_b, CTask example_task_c]"
    have ok: "\<not> (length ?tasks \<noteq> length [3, 1 :: rat] \<or> \<not> distinct (map hash ?tasks))"
      by (simp add: example_task_b_def example_task_c_def)
    from Mixture_init_cases [of ?tasks "[3, 1]" 4 "''n''"] ok
    obtain m where init: "Mixture_init 4 ''n'' ?tasks [3, 1] = Inr m"
      and look: "\<forall>i < length ?tasks.
              map_of (tasks_or_mixtures_dict m) (hash (?tasks ! i)) = Some (?tasks ! i) \<and>
              map_of (proportions_dict m) (hash (?tasks ! i)) = Some ([3, 1] ! i)"
      by (simp only: if_False) blast
    have "(1::nat) < length ?tasks" by simp
    with look have "map_of (proportions_dict m) (hash (?tasks ! 1)) = Some ([3, 1] ! 1)"
      by blast
    then have "map_of (proportions_dict m) (hash (CTask example_task_c)) = Some 1"
      by simp
    with init show ?thesis by blast
  qed
  from one two three show ?thesis by blast
qed

section \<open>Mixture: proportions\<close>

lemma get_proportion_not_leaf:
  "\<not> is_in x (leaf_tasks si m) \<Longrightarrow> get_proportion si m x = Inr (direct_weight m x)"
  by (cases m) (simp add: direct_weight_def Let_def split: option.split)

lemma get_proportion_no_sub:
  assumes "mixtures_among (tasks_or_mixtures m) = []"
  shows "get_proportion si m x = Inr (direct_weight m x)"
  using assms
  by (cases m) (simp add: direct_weight_def tasks_or_mixtures_def Let_def split: option.split)

lemma get_proportion_one_sub:
  assumes "mixtures_among (tasks_or_mixtures m) = [sub]"
    and "is_in x (leaf_tasks si m)" "is_in x (leaf_tasks si sub)"
    and "map_of (proportions_dict m) (mixture_id sub) = Some w"
    and "get_proportion si sub x = Inr q"
    and "total_proportion sub \<noteq> 0"
  shows "get_proportion si m x = Inr (direct_weight m x + w * q / total_proportion sub)"
proof (cases m)
  case (Mixture self n comps props)
  from assms(1) have subs: "mixtures_among (map snd comps) = [sub]"
    by (simp add: Mixture tasks_or_mixtures_def)
  from assms(2) have inm: "is_in x (leaf_tasks si (Mixture self n comps props))"
    by (simp only: Mixture)
  from assms(4) have w: "map_of props (mixture_id sub) = Some w"
    by (simp add: Mixture)
  have "get_proportion si (Mixture self n comps props) x =
      Inr (direct_weight (Mixture self n comps props) x + w * q / total_proportion sub)"
    apply (subst get_proportion.simps)
    apply (simp only: inm Let_def not_True_eq_False if_False subs)
    apply (simp add: assms(3,5,6) w direct_weight_def split: option.split)
    done
  then show ?thesis by (simp only: Mixture)
qed

lemma get_proportion_one_sub_other:
  assumes "mixtures_among (tasks_or_mixtures m) = [sub]"
    and "is_in x (leaf_tasks si m)" "\<not> is_in x (leaf_tasks si sub)"
  shows "get_proportion si m x = Inr (direct_weight m x)"
proof (cases m)
  case (Mixture self n comps props)
  from assms(1) have subs: "mixtures_among (map snd comps) = [sub]"
    by (simp add: Mixture tasks_or_mixtures_def)
  from assms(2) have inm: "is_in x (leaf_tasks si (Mixture self n comps props))"
    by (simp only: Mixture)
  have "get_proportion si (Mixture self n comps props) x =
      Inr (direct_weight (Mixture self n comps props) x)"
    apply (subst get_proportion.simps)
    apply (simp only: inm Let_def not_True_eq_False if_False subs)
    apply (simp add: assms(3) direct_weight_def split: option.split)
    done
  then show ?thesis by (simp only: Mixture)
qed

lemma get_proportion_nested_aux:
  assumes ok: "set_iteration_ok si"
    and ids: "distinct [task_id A, task_id B, task_id C, nid]"
    and N: "N = Mixture nid nn (zip (map hash Nc) Nc) (zip (map hash Nc) Np)"
    and Ncase: "(Nc, Np) = ([CTask B, CTask C], [3, 1]) \<or> (Nc, Np) = ([CTask C, CTask B], [1, 3])"
    and M: "M = Mixture mid mn (zip (map hash Mc) Mc) (zip (map hash Mc) Mp)"
    and Mcase: "(Mc, Mp) = ([CTask A, CMixture N], [1, 2]) \<or> (Mc, Mp) = ([CMixture N, CTask A], [2, 1])"
  shows "get_proportion si M (CTask B) = Inr (2 * 3 / 4) \<and>
         get_proportion si M (CTask C) = Inr (2 * 1 / 4) \<and>
         get_proportion si M (CTask A) = Inr 1"
proof -
  have tot: "total_proportion N = 4"
    using Ncase by (auto simp: N total_proportion_def)
  have reachN: "reachable_tasks N = {B, C}"
    using Ncase by (auto simp: N)
  have idN: "mixture_id N = nid"
    by (simp add: N)
  have noN: "mixtures_among (tasks_or_mixtures N) = []"
    using Ncase by (auto simp: N tasks_or_mixtures_def)
  have dN: "direct_weight N (CTask B) = 3" "direct_weight N (CTask C) = 1"
    using Ncase ids by (auto simp: N direct_weight_def)
  have NB: "get_proportion si N (CTask B) = Inr 3"
    using get_proportion_no_sub [OF noN] dN by simp
  have NC: "get_proportion si N (CTask C) = Inr 1"
    using get_proportion_no_sub [OF noN] dN by simp
  have inN: "is_in (CTask B) (leaf_tasks si N)" "is_in (CTask C) (leaf_tasks si N)"
      "\<not> is_in (CTask A) (leaf_tasks si N)"
    using ids by (auto simp: is_in_leaf_tasks [OF ok] reachN)
  have M': "tasks_or_mixtures M = Mc" "proportions_dict M = zip (map hash Mc) Mp"
    using Mcase by (auto simp: M tasks_or_mixtures_def)
  have reachM: "reachable_tasks M = {A, B, C}"
  proof -
    have "reachable_tasks M = set (tasks_among Mc) \<union> (\<Union>m \<in> set (mixtures_among Mc). reachable_tasks m)"
      using Mcase by (auto simp: M)
    also have "\<dots> = {A, B, C}"
      using Mcase by (auto simp: reachN)
    finally show ?thesis .
  qed
  have inM: "is_in (CTask B) (leaf_tasks si M)" "is_in (CTask C) (leaf_tasks si M)"
      "is_in (CTask A) (leaf_tasks si M)"
    by (auto simp: is_in_leaf_tasks [OF ok] reachM)
  have oneM: "mixtures_among (tasks_or_mixtures M) = [N]"
    using Mcase by (auto simp: M')
  have wN: "map_of (proportions_dict M) (mixture_id N) = Some 2"
    using Mcase ids by (auto simp: M' idN)
  have dM: "direct_weight M (CTask B) = 0" "direct_weight M (CTask C) = 0"
      "direct_weight M (CTask A) = 1"
    using Mcase ids by (auto simp: M' direct_weight_def idN)
  have nz: "total_proportion N \<noteq> 0" by (simp add: tot)
  have MB: "get_proportion si M (CTask B) = Inr (2 * 3 / 4)"
    using get_proportion_one_sub [OF oneM inM(1) inN(1) wN NB nz] by (simp add: dM tot)
  have MC: "get_proportion si M (CTask C) = Inr (2 * 1 / 4)"
    using get_proportion_one_sub [OF oneM inM(2) inN(2) wN NC nz] by (simp add: dM tot)
  have MA: "get_proportion si M (CTask A) = Inr 1"
    using get_proportion_one_sub_other [OF oneM inM(3) inN(3)] by (simp add: dM)
  from MB MC MA show ?thesis by simp
qed

lemma example_mixture_init:
  "Mixture_init 4 ''n'' [CTask example_task_b, CTask example_task_c] [3, 1] = Inr example_sub_mixture"
  "Mixture_init 5 ''m'' [CTask example_task, CMixture example_sub_mixture] [1, 2] = Inr example_mixture"
proof -
  show "Mixture_init 4 ''n'' [CTask example_task_b, CTask example_task_c] [3, 1] = Inr example_sub_mixture"
    by (subst Mixture_init_ok)
      (simp_all add: example_task_b_def example_task_c_def example_sub_mixture_def)
  show "Mixture_init 5 ''m'' [CTask example_task, CMixture example_sub_mixture] [1, 2] = Inr example_mixture"
    by (subst Mixture_init_ok)
      (simp_all add: example_task_def example_sub_mixture_def example_mixture_def)
qed

lemma hash_components:
  "hash ` set cs = task_id ` set (tasks_among cs) \<union> mixture_id ` set (mixtures_among cs)"
  by (induction cs rule: tasks_among.induct) auto

lemma direct_tasks_reachable:
  "set (tasks_among (tasks_or_mixtures m)) \<subseteq> reachable_tasks m"
  by (cases m) (simp add: tasks_or_mixtures_def)

lemma direct_weight_absent:
  "hash x \<notin> fst ` set (proportions_dict m) \<Longrightarrow> direct_weight m x = 0"
  by (simp add: direct_weight_def map_of_eq_None_iff [THEN iffD2])

lemma example_not_leaf:
  "\<not> is_in (CMixture example_sub_mixture) (leaf_tasks example_set_iteration example_mixture)"
  by (simp add: is_in_def example_mixture_def
      example_sub_mixture_def example_task_def example_task_b_def example_task_c_def)

text \<open>
  Claim C1. Let \<open>N\<close> be constructed from the tasks \<open>B\<close> at weight 3 and \<open>C\<close> at weight 1,
  and \<open>M\<close> from the task \<open>A\<close> at weight 1 and \<open>N\<close> at weight 2 (in either order; \<open>A\<close>,
  \<open>B\<close>, \<open>C\<close> and \<open>N\<close> being four objects). Then \<^verbatim>\<open>M.get_proportion(B)\<close> is \<open>2 * 3/4\<close>,
  \<^verbatim>\<open>M.get_proportion(C)\<close> is \<open>2 * 1/4\<close> and \<^verbatim>\<open>M.get_proportion(A)\<close> is the raw weight 1:
  the weights of \<open>N\<close> are divided by its \<^verbatim>\<open>total_proportion\<close> before they are scaled by
  the weight of \<open>N\<close> in \<open>M\<close>, and the direct weight is not normalized.
\<close>

theorem get_proportion_nested:
  assumes ok: "set_iteration_ok si"
    and ids: "distinct [task_id A, task_id B, task_id C, nid]"
    and Ncase: "(Nc, Np) = ([CTask B, CTask C], [3, 1]) \<or> (Nc, Np) = ([CTask C, CTask B], [1, 3])"
    and Ninit: "Mixture_init nid nn Nc Np = Inr N"
    and Mcase: "(Mc, Mp) = ([CTask A, CMixture N], [1, 2]) \<or> (Mc, Mp) = ([CMixture N, CTask A], [2, 1])"
    and Minit: "Mixture_init mid mn Mc Mp = Inr M"
  shows "get_proportion si M (CTask B) = Inr (2 * 3 / 4) \<and>
         get_proportion si M (CTask C) = Inr (2 * 1 / 4) \<and>
         get_proportion si M (CTask A) = Inr 1"
proof -
  have "length Nc = length Np" "distinct (map hash Nc)"
    using Ncase ids by auto
  from Mixture_init_ok [OF this] Ninit
  have N: "N = Mixture nid nn (zip (map hash Nc) Nc) (zip (map hash Nc) Np)"
    by simp
  have "length Mc = length Mp" "distinct (map hash Mc)"
    using Mcase ids by (auto simp: N)
  from Mixture_init_ok [OF this] Minit
  have M: "M = Mixture mid mn (zip (map hash Mc) Mc) (zip (map hash Mc) Mp)"
    by simp
  show ?thesis
    by (rule get_proportion_nested_aux [OF ok ids N Ncase M Mcase])
qed

theorem get_proportion_nested_witness:
  "get_proportion example_set_iteration example_mixture (CTask example_task_b) = Inr (3 / 2) \<and>
   get_proportion example_set_iteration example_mixture (CTask example_task_c) = Inr (1 / 2) \<and>
   get_proportion example_set_iteration example_mixture (CTask example_task) = Inr 1"
proof -
  have ids: "distinct [task_id example_task, task_id example_task_b, task_id example_task_c, 4]"
    by (simp add: example_task_def example_task_b_def example_task_c_def)
  from get_proportion_nested [OF example_set_iteration_ok ids _ example_mixture_init(1) _
      example_mixture_init(2)]
  show ?thesis by simp
qed


text \<open>
  Claim C8, as the code has it. For an argument \<open>x\<close> that is not among the leaf tasks,
  \<^verbatim>\<open>get_proportion\<close> returns the weight the Mixture's own dictionary holds for \<open>x\<close>: 0 when
  \<open>x\<close> is no key of it, which is the case of every Task passed to a constructed Mixture
  (no sub-Mixture being the same object as the Task), and the direct weight when \<open>x\<close> is a
  direct component, as a direct sub-Mixture passed as the argument is.
\<close>

theorem get_proportion_outside_leaf_tasks:
  assumes "\<not> is_in x (leaf_tasks si m)"
  shows "get_proportion si m x = Inr (direct_weight m x) \<and>
     (hash x \<notin> fst ` set (proportions_dict m) \<longrightarrow> get_proportion si m x = Inr 0) \<and>
     (set_iteration_ok si \<and> map fst (proportions_dict m) = map hash (tasks_or_mixtures m) \<and>
      (\<exists>t. x = CTask t) \<and> hash x \<notin> mixture_id ` set (mixtures_among (tasks_or_mixtures m))
      \<longrightarrow> get_proportion si m x = Inr 0)"
proof -
  have direct: "get_proportion si m x = Inr (direct_weight m x)"
    by (rule get_proportion_not_leaf [OF assms])
  have absent: "get_proportion si m x = Inr 0" if "hash x \<notin> fst ` set (proportions_dict m)"
    using direct direct_weight_absent [OF that] by simp
  have task: "get_proportion si m x = Inr 0"
    if ok: "set_iteration_ok si"
      and keys: "map fst (proportions_dict m) = map hash (tasks_or_mixtures m)"
      and sub: "hash x \<notin> mixture_id ` set (mixtures_among (tasks_or_mixtures m))"
  proof (rule absent)
    have "hash x \<notin> task_id ` reachable_tasks m"
      using assms by (simp add: is_in_leaf_tasks [OF ok])
    then have "hash x \<notin> task_id ` set (tasks_among (tasks_or_mixtures m))"
      using direct_tasks_reachable [of m] by blast
    with sub have "hash x \<notin> hash ` set (tasks_or_mixtures m)"
      by (simp add: hash_components)
    moreover have "fst ` set (proportions_dict m) = hash ` set (tasks_or_mixtures m)"
      using arg_cong [OF keys, of set] by simp
    ultimately show "hash x \<notin> fst ` set (proportions_dict m)" by simp
  qed
  from direct absent task show ?thesis by blast
qed

theorem get_proportion_outside_leaf_tasks_witness:
  "\<not> is_in (CTask (Task 9 ''z'' None None)) (leaf_tasks example_set_iteration example_mixture) \<and>
   hash (CTask (Task 9 ''z'' None None)) \<notin> fst ` set (proportions_dict example_mixture) \<and>
   get_proportion example_set_iteration example_mixture (CTask (Task 9 ''z'' None None)) = Inr 0"
proof -
  have out: "\<not> is_in (CTask (Task 9 ''z'' None None))
      (leaf_tasks example_set_iteration example_mixture)"
    by (simp add: is_in_def example_mixture_def
      example_sub_mixture_def example_task_def example_task_b_def example_task_c_def)
  have key: "hash (CTask (Task 9 ''z'' None None)) \<notin> fst ` set (proportions_dict example_mixture)"
    by (simp add: example_mixture_def)
  from get_proportion_outside_leaf_tasks [OF out] key out show ?thesis
    by blast
qed

text \<open>
  The claim as stated fails for a direct sub-Mixture: \<open>example_sub_mixture\<close> is not among
  the leaf tasks of \<open>example_mixture\<close>, and its proportion there is its weight 2, not 0.
\<close>

theorem get_proportion_sub_mixture_counterexample:
  "set_iteration_ok example_set_iteration \<and>
   Mixture_init 5 ''m'' [CTask example_task, CMixture example_sub_mixture] [1, 2]
     = Inr example_mixture \<and>
   \<not> is_in (CMixture example_sub_mixture) (leaf_tasks example_set_iteration example_mixture) \<and>
   get_proportion example_set_iteration example_mixture (CMixture example_sub_mixture) = Inr 2 \<and>
   get_proportion example_set_iteration example_mixture (CMixture example_sub_mixture) \<noteq> Inr 0"
proof -
  have "direct_weight example_mixture (CMixture example_sub_mixture) = 2"
    by (simp add: direct_weight_def example_mixture_def example_sub_mixture_def)
  with get_proportion_not_leaf [OF example_not_leaf]
  have "get_proportion example_set_iteration example_mixture (CMixture example_sub_mixture) = Inr 2"
    by simp
  with example_set_iteration_ok example_mixture_init(2) example_not_leaf show ?thesis
    by simp
qed

section \<open>Mixture: the cached leaf tasks\<close>

lemma sub_mixtures_self: "m \<in> sub_mixtures m"
  by (cases m) simp

lemma sub_mixtures_child:
  "m' \<in> set (mixtures_among (tasks_or_mixtures m)) \<Longrightarrow> sub_mixtures m' \<subseteq> sub_mixtures m"
  by (cases m) (auto simp: tasks_or_mixtures_def)

lemma fold_leaf_tasks_cached:
  assumes step: "\<And>m c. m \<in> set ms \<Longrightarrow> cache_consistent si U c \<Longrightarrow>
      \<exists>c'. leaf_tasks_cached si m c = (leaf_tasks si m, c') \<and> cache_consistent si U c'"
    and c0: "cache_consistent si U c0"
  shows "\<exists>c1. fold (\<lambda>mix (acc, c). case leaf_tasks_cached si mix c of
                                     (l, c') \<Rightarrow> (acc @ [l], c')) ms (acc, c0)
              = (acc @ map (leaf_tasks si) ms, c1) \<and> cache_consistent si U c1"
  using assms
proof (induction ms arbitrary: acc c0)
  case Nil
  then show ?case by simp
next
  case (Cons m ms)
  from Cons.prems(1) [of m c0] Cons.prems(2)
  obtain c' where m: "leaf_tasks_cached si m c0 = (leaf_tasks si m, c')"
    and c': "cache_consistent si U c'"
    by auto
  have "\<exists>c1. fold (\<lambda>mix (acc, c). case leaf_tasks_cached si mix c of
                                     (l, c') \<Rightarrow> (acc @ [l], c')) ms (acc @ [leaf_tasks si m], c')
              = ((acc @ [leaf_tasks si m]) @ map (leaf_tasks si) ms, c1) \<and>
             cache_consistent si U c1"
    by (rule Cons.IH [OF _ c']) (use Cons.prems(1) in simp)
  then show ?case by (simp add: m)
qed

lemma leaf_tasks_cached_refines:
  assumes "inj_on mixture_id U"
  shows "sub_mixtures m \<subseteq> U \<Longrightarrow> cache_consistent si U c \<Longrightarrow>
     \<exists>c'. leaf_tasks_cached si m c = (leaf_tasks si m, c') \<and> cache_consistent si U c'"
proof (induction si m c rule: leaf_tasks_cached.induct)
  case (1 si self n comps props cache)
  let ?m = "Mixture self n comps props"
  have mU: "?m \<in> U"
    using "1.prems"(1) sub_mixtures_self [of ?m] by blast
  show ?case
  proof (cases "cache self")
    case (Some val)
    with "1.prems"(2) mU have "val = leaf_tasks si ?m"
      unfolding cache_consistent_def by (metis mixture.sel(1))
    with Some "1.prems"(2) show ?thesis by simp
  next
    case None
    let ?ms = "mixtures_among (map snd comps)"
    have step: "\<exists>c'. leaf_tasks_cached si m c = (leaf_tasks si m, c') \<and> cache_consistent si U c'"
      if "m \<in> set ?ms" "cache_consistent si U c" for m c
    proof (rule "1.IH" [OF None refl refl refl that(1) _ that(2)])
      show "sub_mixtures m \<subseteq> U"
        using that(1) "1.prems"(1) by auto
    qed
    from fold_leaf_tasks_cached [of ?ms si U cache "[]", OF step "1.prems"(2)]
    obtain c1 where f: "fold (\<lambda>mix (acc, c). case leaf_tasks_cached si mix c of
                                     (l, c') \<Rightarrow> (acc @ [l], c')) ?ms ([], cache)
              = (map (leaf_tasks si) ?ms, c1)" and c1: "cache_consistent si U c1"
      by auto
    have res: "leaf_tasks_cached si ?m cache = (leaf_tasks si ?m, c1(self \<mapsto> leaf_tasks si ?m))"
      by (simp add: None f Let_def)
    have "cache_consistent si U (c1(self \<mapsto> leaf_tasks si ?m))"
      unfolding cache_consistent_def
    proof (intro ballI allI impI)
      fix m' val
      assume m': "m' \<in> U" and v: "(c1(self \<mapsto> leaf_tasks si ?m)) (mixture_id m') = Some val"
      show "val = leaf_tasks si m'"
      proof (cases "mixture_id m' = self")
        case True
        then have "mixture_id m' = mixture_id ?m" by simp
        with assms m' mU have "m' = ?m" by (meson inj_onD)
        with v True show ?thesis by simp
      next
        case False
        with v have "c1 (mixture_id m') = Some val" by simp
        with c1 m' show ?thesis unfolding cache_consistent_def by blast
      qed
    qed
    with res show ?thesis by blast
  qed
qed

lemma leaf_tasks_cached_stores:
  "leaf_tasks_cached si m c = (val, c') \<Longrightarrow> c' (mixture_id m) = Some val"
  by (cases m) (auto simp: Let_def split: option.splits prod.splits)

lemma leaf_tasks_cached_hit:
  "c (mixture_id m) = Some val \<Longrightarrow> leaf_tasks_cached si m c = (val, c)"
  by (cases m) simp


lemma leaf_tasks_set_eq:
  assumes "set_iteration_ok si" "inj_on task_id (reachable_tasks m)"
  shows "set (leaf_tasks si m) = reachable_tasks m"
proof
  show "set (leaf_tasks si m) \<subseteq> reachable_tasks m"
    by (rule leaf_tasks_subset [OF assms(1)])
  show "reachable_tasks m \<subseteq> set (leaf_tasks si m)"
  proof
    fix t assume t: "t \<in> reachable_tasks m"
    then have "task_id t \<in> task_id ` set (leaf_tasks si m)"
      by (simp add: leaf_tasks_ids [OF assms(1)])
    then obtain u where u: "u \<in> set (leaf_tasks si m)" "task_id u = task_id t" by auto
    with leaf_tasks_subset [OF assms(1), of m] have "u \<in> reachable_tasks m" by blast
    with assms(2) t u(2) have "u = t" by (auto dest: inj_onD)
    with u(1) show "t \<in> set (leaf_tasks si m)" by simp
  qed
qed

text \<open>
  Claim C9. The leaf tasks of a Mixture are sorted by name, hold no object twice, are all
  reachable through the nested Mixtures and hold every reachable Task (by identity; as a
  set of values when the reachable Tasks have distinct identities). A read of the cached
  property, in a cache that holds nothing but leaf tasks, returns them and stores them in
  the Mixture; every later read returns the stored value and leaves the cache as it is,
  whatever a fresh computation would yield.
\<close>

theorem leaf_tasks_sorted_deduplicated_cached:
  assumes ok: "set_iteration_ok si"
    and ids: "inj_on mixture_id (sub_mixtures m)"
    and cache: "cache_consistent si (sub_mixtures m) c"
  shows "sorted (map name (leaf_tasks si m)) \<and>
     distinct (map task_id (leaf_tasks si m)) \<and>
     set (leaf_tasks si m) \<subseteq> reachable_tasks m \<and>
     task_id ` set (leaf_tasks si m) = task_id ` reachable_tasks m \<and>
     (inj_on task_id (reachable_tasks m) \<longrightarrow> set (leaf_tasks si m) = reachable_tasks m) \<and>
     (\<exists>c1. leaf_tasks_cached si m c = (leaf_tasks si m, c1) \<and>
           c1 (mixture_id m) = Some (leaf_tasks si m) \<and>
           (\<forall>si'. leaf_tasks_cached si' m c1 = (leaf_tasks si m, c1)))"
proof -
  from leaf_tasks_cached_refines [OF ids subset_refl cache]
  obtain c1 where first: "leaf_tasks_cached si m c = (leaf_tasks si m, c1)"
    by blast
  from leaf_tasks_cached_stores [OF first]
  have stored: "c1 (mixture_id m) = Some (leaf_tasks si m)" .
  then have "leaf_tasks_cached si' m c1 = (leaf_tasks si m, c1)" for si'
    by (rule leaf_tasks_cached_hit)
  with first stored have reads: "\<exists>c1. leaf_tasks_cached si m c = (leaf_tasks si m, c1) \<and>
           c1 (mixture_id m) = Some (leaf_tasks si m) \<and>
           (\<forall>si'. leaf_tasks_cached si' m c1 = (leaf_tasks si m, c1))"
    by blast
  from leaf_tasks_sorted [of si m] leaf_tasks_distinct [OF ok, of m]
    leaf_tasks_subset [OF ok, of m] leaf_tasks_ids [OF ok, of m]
    leaf_tasks_set_eq [OF ok, of m] reads
  show ?thesis by blast
qed


theorem leaf_tasks_sorted_deduplicated_cached_witness:
  "leaf_tasks example_set_iteration example_mixture
     = [example_task, example_task_b, example_task_c] \<and>
   sorted (map name (leaf_tasks example_set_iteration example_mixture)) \<and>
   set (leaf_tasks example_set_iteration example_mixture) = reachable_tasks example_mixture \<and>
   (\<exists>c1. leaf_tasks_cached example_set_iteration example_mixture (\<lambda>_. None)
            = (leaf_tasks example_set_iteration example_mixture, c1) \<and>
         c1 5 = Some (leaf_tasks example_set_iteration example_mixture) \<and>
         leaf_tasks_cached example_set_iteration example_mixture c1
            = (leaf_tasks example_set_iteration example_mixture, c1))"
proof -
  have subs: "sub_mixtures example_mixture = {example_mixture, example_sub_mixture}"
    by (auto simp: example_mixture_def example_sub_mixture_def)
  have ids: "inj_on mixture_id (sub_mixtures example_mixture)"
    unfolding subs by (simp add: example_mixture_def example_sub_mixture_def)
  have cache: "cache_consistent example_set_iteration (sub_mixtures example_mixture) (\<lambda>_. None)"
    by (simp add: cache_consistent_def)
  have reach: "reachable_tasks example_mixture = {example_task, example_task_b, example_task_c}"
    by (auto simp: example_mixture_def example_sub_mixture_def)
  have inj: "inj_on task_id (reachable_tasks example_mixture)"
    unfolding reach by (simp add: example_task_def example_task_b_def example_task_c_def)
  have val: "leaf_tasks example_set_iteration example_mixture
     = [example_task, example_task_b, example_task_c]"
    by (simp add: example_mixture_def example_sub_mixture_def example_task_def
        example_task_b_def example_task_c_def)
  have id5: "mixture_id example_mixture = 5"
    by (simp add: example_mixture_def)
  from leaf_tasks_sorted_deduplicated_cached [OF example_set_iteration_ok ids cache] inj val id5
  show ?thesis by metis
qed

section \<open>What the calls do to a task's list of preprocessors\<close>

lemma epochs_tail_heap:
  "snd (case R of
          Inl e \<Rightarrow> (Inl e, h2)
        | Inr p \<Rightarrow>
            if c p then (Inr (f p), h2)
            else (case g p of Inl e \<Rightarrow> (Inl e, h2) | Inr d \<Rightarrow> (Inr d, h2))) = h2"
  by (cases R) (simp_all split: sum.split)

lemma get_task_lazy_dataset_heap:
  assumes "preprocessors task = Some a"
    and "source task = Some s" "src_get_data_source s sp = Inr g"
    and "new_SourceLazyMapDataset eng g = Inr d0"
    and "(case shard_info of
            None \<Rightarrow> Inr d0
          | Some si \<Rightarrow> new_ShardLazyMapDataset eng d0 (ShardOptions (index si) (num_shards si)))
         = Inr d"
    and "converter_transforms fc sl = Inr ts" "lazy_batch_operations eng b = Inr bs"
  shows "snd (get_task_lazy_dataset eng rs h task sl sp fc b sh sd shard_info ne)
     = h[a := h ! a @ ts @ bs]"
proof -
  have fc: "(case fc of
              None \<Rightarrow> Inr h
            | Some f \<Rightarrow>
                (case f sl of
                   Inl e \<Rightarrow> Inl e
                 | Inr transforms \<Rightarrow> Inr (list_extend h a transforms)))
      = Inr (h[a := h ! a @ ts])"
    using assms(6) by (cases fc) (auto simp: converter_transforms_def list_extend_def)
  have b: "(if truthy b
            then (case new_Batch eng (the b) None of
                    Inl e \<Rightarrow> Inl e
                  | Inr batch_op \<Rightarrow> Inr (list_append (h[a := h ! a @ ts]) a batch_op))
            else Inr (h[a := h ! a @ ts]))
      = Inr (h[a := h ! a @ ts @ bs])"
    using assms(7)
    by (cases "a < length h")
      (auto simp: lazy_batch_operations_def list_append_def list_update_beyond
         split: if_splits sum.splits)
  show ?thesis
    unfolding get_task_lazy_dataset_def get_data_source_for_split_def Let_def
    by (simp only: assms(1-5) option.case sum.case fc b epochs_tail_heap)
qed

lemma get_task_lazy_dataset_frame:
  assumes "\<not> truthy b"
  shows "snd (get_task_lazy_dataset eng rs h task sl sp None b sh sd shard_info ne) = h"
  unfolding get_task_lazy_dataset_def Let_def
  by (simp add: assms epochs_tail_heap split: sum.split del: run_epochs.simps)

lemma truthy_None: "\<not> truthy None"
  by (simp add: truthy_def)

lemma mix_leaf_tasks_frame:
  "snd (mix_leaf_tasks eng rs si m sl sp sh sd shard_info ne tasks h datasets proportions) = h"
proof (induction tasks arbitrary: datasets proportions)
  case Nil
  show ?case by simp
next
  case (Cons t tasks)
  obtain r h' where run: "get_task_lazy_dataset eng rs h t sl sp None None sh sd shard_info ne
      = (r, h')"
    by (cases "get_task_lazy_dataset eng rs h t sl sp None None sh sd shard_info ne")
  with get_task_lazy_dataset_frame [OF truthy_None, of eng rs h t sl sp sh sd shard_info ne]
  have "h' = h"
    by simp
  with run Cons.IH show ?case
    by (simp split: sum.split)
qed

lemma mixed_dataset_frame:
  "snd (mixed_dataset eng rs si h m sl sp fc b sh sd shard_info ne) = h"
proof -
  obtain r h' where run: "mix_leaf_tasks eng rs si m sl sp sh sd shard_info ne (leaf_tasks si m)
      h [] [] = (r, h')"
    by (cases "mix_leaf_tasks eng rs si m sl sp sh sd shard_info ne (leaf_tasks si m) h [] []")
  with mix_leaf_tasks_frame [of eng rs si m sl sp sh sd shard_info ne "leaf_tasks si m" h "[]" "[]"]
  have "h' = h" by simp
  with run show ?thesis
    unfolding mixed_dataset_def by (simp split: sum.split prod.split)
qed

lemma get_lazy_dataset_frame:
  "snd (get_lazy_dataset eng rs si h m sl sp fc b sh sd shard_info ne) = h"
proof -
  obtain r h' where run: "mixed_dataset eng rs si h m sl sp fc b sh sd shard_info ne = (r, h')"
    by (cases "mixed_dataset eng rs si h m sl sp fc b sh sd shard_info ne")
  with mixed_dataset_frame [of eng rs si h m sl sp fc b sh sd shard_info ne]
  have "h' = h" by simp
  with run show ?thesis
    unfolding get_lazy_dataset_def by (simp split: sum.split)
qed

lemma extend_ops_frame:
  "\<exists>ys. snd (extend_ops eng (h @ [xs]) (length h) sl fc b) = h @ [ys]"
  unfolding extend_ops_def
  by (auto simp: list_extend_def list_append_def split: sum.split option.split)

lemma extend_ops_frame_case:
  "\<exists>extra. snd (case extend_ops eng (h @ [xs]) (length h) sl fc b of
        (Inl e, h2) \<Rightarrow> (Inl e, h2)
      | (Inr u, h2) \<Rightarrow> (Inr (k h2), h2)) = h @ extra"
proof -
  from extend_ops_frame [of eng h xs sl fc b] obtain ys
    where "snd (extend_ops eng (h @ [xs]) (length h) sl fc b) = h @ [ys]" by blast
  then show ?thesis
    by (cases "extend_ops eng (h @ [xs]) (length h) sl fc b") (auto split: sum.split)
qed

lemma Task_get_dataset_frame:
  "\<exists>extra. snd (Task_get_dataset eng h t sl sp fc b sh sd shard_info ne) = h @ extra"
  unfolding Task_get_dataset_def get_preprocessors_def list_copy_def Let_def
  using extend_ops_frame_case
  by (auto split: sum.split option.split)

text \<open>
  Claim C10. When \<^verbatim>\<open>get_task_lazy_dataset\<close> gets as far as its third step (the task's
  source and the source dataset are there) with the converter's transforms \<open>ts\<close> and the
  batch operation \<open>bs\<close>, the task's own list is extended in place by \<open>ts @ bs\<close>, whatever
  happens afterwards, and a second call extends it again. With no converter and no batch
  size, as in every call that \<^verbatim>\<open>get_lazy_dataset\<close> makes, the store is left as it is.
  \<^verbatim>\<open>Task.get_dataset\<close> only adds new lists to the store: the task's list keeps its
  content.
\<close>

theorem get_task_lazy_dataset_mutates_task:
  "(preprocessors task = Some a \<and> a < length h \<and>
    source task = Some s \<and> src_get_data_source s sp = Inr g \<and>
    new_SourceLazyMapDataset eng g = Inr d0 \<and>
    (case shard_info of
       None \<Rightarrow> Inr d0
     | Some si \<Rightarrow> new_ShardLazyMapDataset eng d0 (ShardOptions (index si) (num_shards si)))
      = Inr d \<and>
    converter_transforms fc sl = Inr ts \<and> lazy_batch_operations eng b = Inr bs \<longrightarrow>
      snd (get_task_lazy_dataset eng rs h task sl sp fc b sh sd shard_info ne)
        = h[a := h ! a @ ts @ bs] \<and>
      snd (get_task_lazy_dataset eng rs h task sl sp fc b sh sd shard_info ne) ! a
        = h ! a @ ts @ bs \<and>
      snd (get_task_lazy_dataset eng rs
             (snd (get_task_lazy_dataset eng rs h task sl sp fc b sh sd shard_info ne))
             task sl sp fc b sh sd shard_info ne) ! a
        = h ! a @ ts @ bs @ ts @ bs) \<and>
   (\<not> truthy b \<longrightarrow>
      snd (get_task_lazy_dataset eng rs h task sl sp None b sh sd shard_info ne) = h) \<and>
   snd (get_lazy_dataset eng rs si h m sl sp fc b sh sd shard_info ne) = h \<and>
   (\<exists>extra. snd (Task_get_dataset eng h task sl sp fc b sh sd shard_info ne) = h @ extra) \<and>
   (a < length h \<longrightarrow>
      snd (Task_get_dataset eng h task sl sp fc b sh sd shard_info ne) ! a = h ! a)"
proof -
  have mut: "snd (get_task_lazy_dataset eng rs h task sl sp fc b sh sd shard_info ne)
        = h[a := h ! a @ ts @ bs] \<and>
      snd (get_task_lazy_dataset eng rs h task sl sp fc b sh sd shard_info ne) ! a
        = h ! a @ ts @ bs \<and>
      snd (get_task_lazy_dataset eng rs
             (snd (get_task_lazy_dataset eng rs h task sl sp fc b sh sd shard_info ne))
             task sl sp fc b sh sd shard_info ne) ! a
        = h ! a @ ts @ bs @ ts @ bs"
    if p: "preprocessors task = Some a" and a: "a < length h"
      and src: "source task = Some s" "src_get_data_source s sp = Inr g"
        "new_SourceLazyMapDataset eng g = Inr d0"
        "(case shard_info of
            None \<Rightarrow> Inr d0
          | Some si \<Rightarrow> new_ShardLazyMapDataset eng d0 (ShardOptions (index si) (num_shards si)))
         = Inr d"
      and ext: "converter_transforms fc sl = Inr ts" "lazy_batch_operations eng b = Inr bs"
  proof -
    have first: "snd (get_task_lazy_dataset eng rs h' task sl sp fc b sh sd shard_info ne)
        = h'[a := h' ! a @ ts @ bs]" for h'
      by (rule get_task_lazy_dataset_heap [OF p src ext])
    have one: "snd (get_task_lazy_dataset eng rs h task sl sp fc b sh sd shard_info ne) ! a
        = h ! a @ ts @ bs"
      using a by (simp add: first)
    have two: "snd (get_task_lazy_dataset eng rs
             (snd (get_task_lazy_dataset eng rs h task sl sp fc b sh sd shard_info ne))
             task sl sp fc b sh sd shard_info ne) ! a
        = h ! a @ ts @ bs @ ts @ bs"
      using a by (simp add: first)
    from first [of h] one two show ?thesis by blast
  qed
  have frame: "snd (get_task_lazy_dataset eng rs h task sl sp None b sh sd shard_info ne) = h"
    if "\<not> truthy b"
    by (rule get_task_lazy_dataset_frame [OF that])
  have lazy: "snd (get_lazy_dataset eng rs si h m sl sp fc b sh sd shard_info ne) = h"
    by (rule get_lazy_dataset_frame)
  obtain extra where copy:
    "snd (Task_get_dataset eng h task sl sp fc b sh sd shard_info ne) = h @ extra"
    using Task_get_dataset_frame by blast
  then have same: "snd (Task_get_dataset eng h task sl sp fc b sh sd shard_info ne) ! a = h ! a"
    if "a < length h"
    using that by (simp add: nth_append)
  from mut frame lazy copy same show ?thesis by blast
qed


theorem get_task_lazy_dataset_mutates_task_witness:
  "snd (get_task_lazy_dataset example_engine example_random_state example_heap example_task
          None ''train'' (Some example_converter) (Some 8) False (Some 0) None (Some 1)) ! 0
     = [Transformation 1, Transformation 2, Transformation 3, Batch 8 None] \<and>
   snd (get_task_lazy_dataset example_engine example_random_state
          (snd (get_task_lazy_dataset example_engine example_random_state example_heap
                  example_task None ''train'' (Some example_converter) (Some 8) False (Some 0)
                  None (Some 1)))
          example_task None ''train'' (Some example_converter) (Some 8) False (Some 0) None
          (Some 1)) ! 0
     = [Transformation 1, Transformation 2, Transformation 3, Batch 8 None,
        Transformation 3, Batch 8 None] \<and>
   snd (get_task_lazy_dataset example_engine example_random_state example_heap example_task
          None ''train'' None None False (Some 0) None (Some 1)) = example_heap \<and>
   snd (Task_get_dataset example_engine example_heap example_task None ''train''
          (Some example_converter) (Some 8) False (Some 0) None (Some 1)) ! 0
     = [Transformation 1, Transformation 2]"
proof -
  have hyps: "preprocessors example_task = Some 0" "0 < length example_heap"
      "source example_task = Some example_source"
      "src_get_data_source example_source ''train'' = Inr 7"
      "new_SourceLazyMapDataset example_engine 7 = Inr (SourceLazyMapDataset 7)"
      "(case None of
          None \<Rightarrow> Inr (SourceLazyMapDataset 7)
        | Some si \<Rightarrow> new_ShardLazyMapDataset example_engine (SourceLazyMapDataset 7)
                      (ShardOptions (index si) (num_shards si)))
        = Inr (SourceLazyMapDataset 7)"
      "converter_transforms (Some example_converter) None = Inr [Transformation 3]"
      "lazy_batch_operations example_engine (Some 8) = Inr [Batch 8 None]"
    by (simp_all add: example_task_def example_heap_def example_source_def example_engine_def
        converter_transforms_def example_converter_def lazy_batch_operations_def truthy_def)
  have content: "example_heap ! 0 = [Transformation 1, Transformation 2]"
    by (simp add: example_heap_def)
  from get_task_lazy_dataset_mutates_task [of example_task 0 example_heap example_source
      "''train''" 7 example_engine "SourceLazyMapDataset 7" None "SourceLazyMapDataset 7"
      "Some example_converter" None "[Transformation 3]" "Some 8" "[Batch 8 None]"
      example_random_state False "Some 0" "Some 1" example_set_iteration example_mixture]
    hyps
  have mut: "snd (get_task_lazy_dataset example_engine example_random_state example_heap
          example_task None ''train'' (Some example_converter) (Some 8) False (Some 0) None
          (Some 1)) ! 0
     = example_heap ! 0 @ [Transformation 3] @ [Batch 8 None]"
    "snd (get_task_lazy_dataset example_engine example_random_state
          (snd (get_task_lazy_dataset example_engine example_random_state example_heap
                  example_task None ''train'' (Some example_converter) (Some 8) False (Some 0)
                  None (Some 1)))
          example_task None ''train'' (Some example_converter) (Some 8) False (Some 0) None
          (Some 1)) ! 0
     = example_heap ! 0 @ [Transformation 3] @ [Batch 8 None] @ [Transformation 3]
        @ [Batch 8 None]"
    "snd (Task_get_dataset example_engine example_heap example_task None ''train''
          (Some example_converter) (Some 8) False (Some 0) None (Some 1)) ! 0
     = example_heap ! 0"
    by blast+
  from get_task_lazy_dataset_mutates_task [of example_task 0 example_heap example_source
      "''train''" 7 example_engine "SourceLazyMapDataset 7" None "SourceLazyMapDataset 7"
      None None "[]" None "[]"
      example_random_state False "Some 0" "Some 1" example_set_iteration example_mixture]
    truthy_None
  have frame: "snd (get_task_lazy_dataset example_engine example_random_state example_heap
          example_task None ''train'' None None False (Some 0) None (Some 1)) = example_heap"
    by blast
  from mut frame show ?thesis
    by (simp add: content)
qed

section \<open>Mixture: indefinite repetition\<close>

lemma example_mixed_dataset:
  "mixed_dataset example_engine example_random_state example_set_iteration example_heap
     example_sub_mixture None ''train'' None None False (Some 0) None None =
   (Inr (MixedLazyMapDataset
           [SourceLazyMapDataset 7,
            LazyDatasetTransform (Transformation 4) (SourceLazyMapDataset 7) (Some 2)]
           [3, 1] True),
    example_heap)"
  by (simp add: mixed_dataset_def example_sub_mixture_def example_task_b_def example_task_c_def
      example_engine_def example_random_state_def example_heap_def example_source_def
      get_task_lazy_dataset_def get_data_source_for_split_def truthy_def split_seed_def
      is_in_def total_proportion_def Let_def)

lemma new_transforms_example: "new_transforms example_engine preps = Inr preps"
  by (induction preps) (simp_all add: example_engine_def)

lemma run_post_mix_example:
  "run_post_mix example_engine preps ds
     = Inr (fold (\<lambda>p d. LazyDatasetTransform p d None) preps ds)"
  by (induction preps arbitrary: ds) (simp_all add: example_engine_def)

lemma mixed_dataset_example_shape:
  assumes "mixed_dataset example_engine rs si h m sl sp fc b sh sd shard_info ne = (Inr g, h')"
  shows "\<exists>datasets proportions preps.
     g = fold (\<lambda>p d. LazyDatasetTransform p d None) preps
           (MixedLazyMapDataset datasets proportions True)"
proof -
  have mixed: "new_MixedLazyMapDataset example_engine ds ps True
      = Inr (MixedLazyMapDataset ds ps True)" for ds ps
    by (simp add: example_engine_def)
  from assms show ?thesis
    unfolding mixed_dataset_def
    by (auto simp: mixed new_transforms_example run_post_mix_example
        split: prod.splits sum.splits if_splits)
qed

text \<open>
  Claim C7. With \<^verbatim>\<open>num_epochs\<close> \<^verbatim>\<open>None\<close> and \<^verbatim>\<open>shuffle\<close> true,
  \<^verbatim>\<open>get_lazy_dataset\<close> raises its \<^verbatim>\<open>ValueError\<close> (the specification's
  ConfigurationError) whatever the engine, the generator and the Mixture are, and leaves
  the store as it is: no call is made before. With a finite \<^verbatim>\<open>num_epochs\<close> the result
  is the finished mixed dataset. With \<^verbatim>\<open>num_epochs\<close> \<^verbatim>\<open>None\<close> and
  \<^verbatim>\<open>shuffle\<close> false, the result is the finished mixed dataset wrapped by
  \<^verbatim>\<open>RepeatLazyMapDataset(ds, num_epochs=None)\<close>, the last call made, and what the mixed
  dataset raises is raised; in the engine that returns the syntax tree of each call, the
  result is that call around the post-mix transforms around the mixing call.
\<close>

theorem get_lazy_dataset_repeats_indefinitely:
  "get_lazy_dataset eng rs si h m sl sp fc b True sd shard_info None
     = (Inl (ValueError repeat_with_shuffle_message), h) \<and>
   (\<forall>ds h'. mixed_dataset eng rs si h m sl sp fc b False sd shard_info None = (Inr ds, h') \<longrightarrow>
      get_lazy_dataset eng rs si h m sl sp fc b False sd shard_info None
        = (case new_RepeatLazyMapDataset eng ds None of
             Inl e \<Rightarrow> (Inl e, h')
           | Inr ds' \<Rightarrow> (Inr ds', h'))) \<and>
   (\<forall>e h'. mixed_dataset eng rs si h m sl sp fc b False sd shard_info None = (Inl e, h') \<longrightarrow>
      get_lazy_dataset eng rs si h m sl sp fc b False sd shard_info None = (Inl e, h')) \<and>
   (\<forall>n. get_lazy_dataset eng rs si h m sl sp fc b sh sd shard_info (Some n)
        = mixed_dataset eng rs si h m sl sp fc b sh sd shard_info (Some n)) \<and>
   (\<forall>g h'. get_lazy_dataset example_engine rs si h m sl sp fc b False sd shard_info None
             = (Inr g, h') \<longrightarrow>
      (\<exists>datasets proportions preps.
         g = RepeatLazyMapDataset
               (fold (\<lambda>p d. LazyDatasetTransform p d None) preps
                  (MixedLazyMapDataset datasets proportions True))
               None))"
proof -
  have guard: "get_lazy_dataset eng rs si h m sl sp fc b True sd shard_info None
     = (Inl (ValueError repeat_with_shuffle_message), h)"
    by (simp add: get_lazy_dataset_def)
  have wrap: "get_lazy_dataset eng rs si h m sl sp fc b False sd shard_info None
        = (case new_RepeatLazyMapDataset eng ds None of
             Inl e \<Rightarrow> (Inl e, h')
           | Inr ds' \<Rightarrow> (Inr ds', h'))"
    if "mixed_dataset eng rs si h m sl sp fc b False sd shard_info None = (Inr ds, h')"
    for ds h'
    using that by (simp add: get_lazy_dataset_def)
  have err: "get_lazy_dataset eng rs si h m sl sp fc b False sd shard_info None = (Inl e, h')"
    if "mixed_dataset eng rs si h m sl sp fc b False sd shard_info None = (Inl e, h')"
    for e h'
    using that by (simp add: get_lazy_dataset_def)
  have finite: "get_lazy_dataset eng rs si h m sl sp fc b sh sd shard_info (Some n)
        = mixed_dataset eng rs si h m sl sp fc b sh sd shard_info (Some n)" for n
    by (simp add: get_lazy_dataset_def split: prod.split sum.split)
  have shape: "\<exists>datasets proportions preps.
         g = RepeatLazyMapDataset
               (fold (\<lambda>p d. LazyDatasetTransform p d None) preps
                  (MixedLazyMapDataset datasets proportions True))
               None"
    if run: "get_lazy_dataset example_engine rs si h m sl sp fc b False sd shard_info None
             = (Inr g, h')"
    for g h'
  proof -
    have rep: "new_RepeatLazyMapDataset example_engine ds None
        = Inr (RepeatLazyMapDataset ds None)" for ds
      by (simp add: example_engine_def)
    from run obtain ds where
      m: "mixed_dataset example_engine rs si h m sl sp fc b False sd shard_info None
            = (Inr ds, h')" and g: "g = RepeatLazyMapDataset ds None"
      by (auto simp: get_lazy_dataset_def rep split: prod.splits sum.splits)
    from mixed_dataset_example_shape [OF m] g show ?thesis by blast
  qed
  from guard wrap err finite shape show ?thesis by blast
qed

theorem get_lazy_dataset_repeats_indefinitely_witness:
  "get_lazy_dataset example_engine example_random_state example_set_iteration example_heap
     example_sub_mixture None ''train'' None None True (Some 0) None None
     = (Inl (ValueError repeat_with_shuffle_message), example_heap) \<and>
   get_lazy_dataset example_engine example_random_state example_set_iteration example_heap
     example_sub_mixture None ''train'' None None False (Some 0) None None
     = (Inr (RepeatLazyMapDataset
              (MixedLazyMapDataset
                 [SourceLazyMapDataset 7,
                  LazyDatasetTransform (Transformation 4) (SourceLazyMapDataset 7) (Some 2)]
                 [3, 1] True)
              None),
        example_heap)"
proof -
  have rep: "new_RepeatLazyMapDataset example_engine ds None = Inr (RepeatLazyMapDataset ds None)"
    for ds
    by (simp add: example_engine_def)
  from get_lazy_dataset_repeats_indefinitely [of example_engine example_random_state
      example_set_iteration example_heap example_sub_mixture None "''train''" None None
      "Some 0" None]
    example_mixed_dataset
  show ?thesis
    by (simp add: rep)
qed

section \<open>Determinism\<close>

lemma split_seed_same:
  "same_on_integer_seeds rs1 rs2 \<Longrightarrow> split_seed rs1 (Some s) = split_seed rs2 (Some s)"
  by (simp add: split_seed_def same_on_integer_seeds_def)

lemma run_preprocessors_same:
  assumes "same_on_integer_seeds rs1 rs2"
  shows "run_preprocessors eng rs1 preps ds s = run_preprocessors eng rs2 preps ds s"
proof (induction preps arbitrary: ds s)
  case Nil
  show ?case by simp
next
  case (Cons p preps)
  show ?case
    by (simp add: split_seed_same [OF assms] Cons.IH
        cong: sum.case_cong prod.case_cong)
qed

lemma run_epochs_same:
  assumes "same_on_integer_seeds rs1 rs2"
  shows "run_epochs eng rs1 preps sh dss (Some s) acc = run_epochs eng rs2 preps sh dss (Some s) acc"
proof (induction dss arbitrary: s acc)
  case Nil
  show ?case by simp
next
  case (Cons ds dss)
  show ?case
    by (simp add: split_seed_same [OF assms] run_preprocessors_same [OF assms] Cons.IH
        cong: sum.case_cong prod.case_cong option.case_cong if_cong)
qed

lemma get_task_lazy_dataset_same:
  assumes "same_on_integer_seeds rs1 rs2"
  shows "get_task_lazy_dataset eng rs1 h task sl sp fc b sh (Some s) shard_info ne
       = get_task_lazy_dataset eng rs2 h task sl sp fc b sh (Some s) shard_info ne"
  unfolding get_task_lazy_dataset_def Let_def
  by (simp only: run_epochs_same [OF assms])

lemma mix_leaf_tasks_same:
  assumes "same_on_integer_seeds rs1 rs2"
  shows "mix_leaf_tasks eng rs1 si m sl sp sh (Some s) shard_info ne tasks h datasets proportions
       = mix_leaf_tasks eng rs2 si m sl sp sh (Some s) shard_info ne tasks h datasets proportions"
proof (induction tasks arbitrary: h datasets proportions)
  case Nil
  show ?case by simp
next
  case (Cons t tasks)
  show ?case
    by (simp add: get_task_lazy_dataset_same [OF assms] Cons.IH
        cong: sum.case_cong prod.case_cong)
qed

lemma mixed_dataset_same:
  assumes "same_on_integer_seeds rs1 rs2"
  shows "mixed_dataset eng rs1 si h m sl sp fc b sh (Some s) shard_info ne
       = mixed_dataset eng rs2 si h m sl sp fc b sh (Some s) shard_info ne"
  unfolding mixed_dataset_def
  by (simp only: mix_leaf_tasks_same [OF assms])

lemma get_lazy_dataset_same:
  assumes "same_on_integer_seeds rs1 rs2"
  shows "get_lazy_dataset eng rs1 si h m sl sp fc b sh (Some s) shard_info ne
       = get_lazy_dataset eng rs2 si h m sl sp fc b sh (Some s) shard_info ne"
  unfolding get_lazy_dataset_def
  by (simp only: mixed_dataset_same [OF assms])

lemma Mixture_get_dataset_same:
  assumes "same_on_integer_seeds rs1 rs2"
  shows "Mixture_get_dataset eng rs1 si h m sl sp fc b sh (Some s) shard_info ne
       = Mixture_get_dataset eng rs2 si h m sl sp fc b sh (Some s) shard_info ne"
  unfolding Mixture_get_dataset_def
  by (simp only: get_lazy_dataset_same [OF assms])

text \<open>
  Claim C3, as the code has it. Two calls are two runs with generators that draw the same
  pair from every integer seed and may differ in what they draw when seeded from the
  operating system. For every configuration whose seed is an integer, the two calls of a
  Mixture's \<^verbatim>\<open>get_dataset\<close> (and of the module's \<^verbatim>\<open>get_dataset\<close>) construct the same
  dataset, every derived seed included, or raise the same error: the construction is a
  function of the configuration. \<^verbatim>\<open>Task.get_dataset\<close> splits no seed, so for a Task
  this holds for every configuration.
\<close>

theorem get_dataset_deterministic:
  assumes "same_on_integer_seeds rs1 rs2"
  shows "(seed \<noteq> None \<longrightarrow>
       Mixture_get_dataset eng rs1 si h m sl sp fc b sh seed shard_info ne
       = Mixture_get_dataset eng rs2 si h m sl sp fc b sh seed shard_info ne) \<and>
     (seed \<noteq> None \<or> (\<exists>t. mixture_or_task = CTask t) \<longrightarrow>
       get_dataset eng rs1 si h mixture_or_task sl sp fc b sh ne seed
       = get_dataset eng rs2 si h mixture_or_task sl sp fc b sh ne seed)"
proof -
  have mix: "Mixture_get_dataset eng rs1 si h m' sl sp fc b sh seed shard_info' ne
       = Mixture_get_dataset eng rs2 si h m' sl sp fc b sh seed shard_info' ne"
    if "seed \<noteq> None" for m' shard_info'
  proof -
    from that obtain s where "seed = Some s" by blast
    then show ?thesis by (simp only: Mixture_get_dataset_same [OF assms])
  qed
  have top: "get_dataset eng rs1 si h mixture_or_task sl sp fc b sh ne seed
       = get_dataset eng rs2 si h mixture_or_task sl sp fc b sh ne seed"
    if "seed \<noteq> None \<or> (\<exists>t. mixture_or_task = CTask t)"
  proof (cases mixture_or_task)
    case (CTask t)
    then show ?thesis by (simp add: get_dataset_def)
  next
    case (CMixture m')
    with that have "seed \<noteq> None" by simp
    from mix [OF this] CMixture show ?thesis by (simp add: get_dataset_def)
  qed
  from mix top show ?thesis by blast
qed

lemma example_random_states_same:
  "same_on_integer_seeds example_random_state example_random_state_2"
  by (simp add: same_on_integer_seeds_def example_random_state_def example_random_state_2_def)

lemma example_unseeded:
  "Mixture_get_dataset example_engine example_random_state example_set_iteration example_heap
     example_sub_mixture None ''train'' None None True None None (Some 1) =
   (Inr (PyGrainDatasetIteratorWrapper
           (DataLoader
              (LazySource
                 (MixedLazyMapDataset
                    [ShuffleLazyMapDataset (SourceLazyMapDataset 7) 3,
                     ShuffleLazyMapDataset
                       (LazyDatasetTransform (Transformation 4) (SourceLazyMapDataset 7)
                          (Some 2))
                       3]
                    [3, 1] True))
              (IndexSampler (Some 3) NoSharding False (Some 1) None) [])),
    example_heap)"
  "Mixture_get_dataset example_engine example_random_state_2 example_set_iteration example_heap
     example_sub_mixture None ''train'' None None True None None (Some 1) =
   (Inr (PyGrainDatasetIteratorWrapper
           (DataLoader
              (LazySource
                 (MixedLazyMapDataset
                    [ShuffleLazyMapDataset (SourceLazyMapDataset 7) 11,
                     ShuffleLazyMapDataset
                       (LazyDatasetTransform (Transformation 4) (SourceLazyMapDataset 7)
                          (Some 6))
                       11]
                    [3, 1] True))
              (IndexSampler (Some 3) NoSharding False (Some 1) None) [])),
    example_heap)"
  by (simp_all add: Mixture_get_dataset_def get_lazy_dataset_def
      mixed_dataset_def example_sub_mixture_def example_task_b_def example_task_c_def
      example_engine_def example_random_state_def example_random_state_2_def example_heap_def
      example_source_def
      get_task_lazy_dataset_def get_data_source_for_split_def truthy_def split_seed_def
      is_in_def total_proportion_def Let_def)

lemma example_seeded:
  "Mixture_get_dataset example_engine example_random_state example_set_iteration example_heap
     example_sub_mixture None ''train'' None None True (Some 0) None (Some 1) =
   (Inr (PyGrainDatasetIteratorWrapper
           (DataLoader
              (LazySource
                 (MixedLazyMapDataset
                    [ShuffleLazyMapDataset (SourceLazyMapDataset 7) 3,
                     ShuffleLazyMapDataset
                       (LazyDatasetTransform (Transformation 4) (SourceLazyMapDataset 7)
                          (Some 2))
                       3]
                    [3, 1] True))
              (IndexSampler (Some 3) NoSharding False (Some 1) (Some 0)) [])),
    example_heap)"
  by (simp add: Mixture_get_dataset_def get_lazy_dataset_def
      mixed_dataset_def example_sub_mixture_def example_task_b_def example_task_c_def
      example_engine_def example_random_state_def example_heap_def
      example_source_def
      get_task_lazy_dataset_def get_data_source_for_split_def truthy_def split_seed_def
      is_in_def total_proportion_def Let_def)

theorem get_dataset_deterministic_witness:
  "same_on_integer_seeds example_random_state example_random_state_2 \<and>
   Mixture_get_dataset example_engine example_random_state_2 example_set_iteration example_heap
     example_sub_mixture None ''train'' None None True (Some 0) None (Some 1) =
   (Inr (PyGrainDatasetIteratorWrapper
           (DataLoader
              (LazySource
                 (MixedLazyMapDataset
                    [ShuffleLazyMapDataset (SourceLazyMapDataset 7) 3,
                     ShuffleLazyMapDataset
                       (LazyDatasetTransform (Transformation 4) (SourceLazyMapDataset 7)
                          (Some 2))
                       3]
                    [3, 1] True))
              (IndexSampler (Some 3) NoSharding False (Some 1) (Some 0)) [])),
    example_heap) \<and>
   get_dataset example_engine example_random_state example_set_iteration example_heap
     (CMixture example_sub_mixture) None ''train'' None None True (Some 1) (Some 0) =
   get_dataset example_engine example_random_state_2 example_set_iteration example_heap
     (CMixture example_sub_mixture) None ''train'' None None True (Some 1) (Some 0)"
proof -
  have seeded: "Some (0::int) \<noteq> None" by simp
  from get_dataset_deterministic [OF example_random_states_same, of "Some 0" example_engine
      example_set_iteration example_heap example_sub_mixture None "''train''" None None True
      None "Some 1" "CMixture example_sub_mixture"] seeded
  have "Mixture_get_dataset example_engine example_random_state example_set_iteration
      example_heap example_sub_mixture None ''train'' None None True (Some 0) None (Some 1)
    = Mixture_get_dataset example_engine example_random_state_2 example_set_iteration
      example_heap example_sub_mixture None ''train'' None None True (Some 0) None (Some 1)"
    and "get_dataset example_engine example_random_state example_set_iteration example_heap
     (CMixture example_sub_mixture) None ''train'' None None True (Some 1) (Some 0) =
   get_dataset example_engine example_random_state_2 example_set_iteration example_heap
     (CMixture example_sub_mixture) None ''train'' None None True (Some 1) (Some 0)"
    by blast+
  with example_seeded example_random_states_same show ?thesis
    by simp
qed

text \<open>
  The claim as stated fails at \<^verbatim>\<open>seed=None\<close>: \<^verbatim>\<open>_split_seed(None)\<close> seeds its generator
  from the operating system, and the shuffle seed and the preprocessor seed of the two
  calls differ with its draws.
\<close>

theorem get_dataset_unseeded_counterexample:
  "same_on_integer_seeds example_random_state example_random_state_2 \<and>
   Mixture_get_dataset example_engine example_random_state example_set_iteration example_heap
     example_sub_mixture None ''train'' None None True None None (Some 1) \<noteq>
   Mixture_get_dataset example_engine example_random_state_2 example_set_iteration example_heap
     example_sub_mixture None ''train'' None None True None None (Some 1) \<and>
   get_dataset example_engine example_random_state example_set_iteration example_heap
     (CMixture example_sub_mixture) None ''train'' None None True (Some 1) None \<noteq>
   get_dataset example_engine example_random_state_2 example_set_iteration example_heap
     (CMixture example_sub_mixture) None ''train'' None None True (Some 1) None"
  using example_random_states_same
  by (simp add: get_dataset_def example_unseeded)

section \<open>The seed tree\<close>

lemma randint_ok_range:
  "randint_ok rs \<Longrightarrow> seed_in_range (fst (rs seed)) \<and> seed_in_range (snd (rs seed))"
  by (simp add: randint_ok_def seed_in_range_def)

lemma split_seed_in_range:
  "seed_in_range s \<Longrightarrow> split_seed rs (Some s) = Inr (rs (Some s))"
  by (simp add: split_seed_def seed_in_range_def)

lemma split_seed_accepted:
  "seed_accepted seed \<Longrightarrow> split_seed rs seed = Inr (rs seed)"
  by (cases seed) (simp_all add: split_seed_def seed_accepted_def)

lemma seed_in_range_accepted: "seed_in_range s \<Longrightarrow> seed_accepted (Some s)"
  by (simp add: seed_in_range_def seed_accepted_def)

lemma prep_seed_chain_length: "length (prep_seed_chain rs n s) = n"
  by (induction n arbitrary: s) simp_all

lemma prep_seed_chain_range:
  assumes "randint_ok rs"
  shows "seed_in_range s \<Longrightarrow> \<forall>k \<in> set (prep_seed_chain rs n s). seed_in_range k"
proof (induction n arbitrary: s)
  case 0
  show ?case by simp
next
  case (Suc n)
  have "seed_in_range (fst (rs (Some s)))"
    using randint_ok_range [OF assms] by blast
  from Suc.IH [OF this] Suc.prems show ?case by simp
qed

lemma transform_example:
  "new_LazyDatasetTransform example_engine prep = Inr prep"
  "call_LazyDatasetTransform example_engine prep ds seed = Inr (LazyDatasetTransform prep ds seed)"
  by (simp_all add: example_engine_def)

lemma shuffle_example:
  "new_ShuffleLazyMapDataset example_engine ds seed = Inr (ShuffleLazyMapDataset ds seed)"
  by (simp add: example_engine_def)

lemma run_preprocessors_seeds:
  assumes "randint_ok rs"
  shows "seed_in_range s \<Longrightarrow>
     \<exists>g s'. run_preprocessors example_engine rs preps ds s = Inr (g, s') \<and>
       transform_seeds g = transform_seeds ds @ map Some (prep_seed_chain rs (length preps) s) \<and>
       shuffle_seeds g = shuffle_seeds ds"
proof (induction preps arbitrary: ds s)
  case Nil
  show ?case by simp
next
  case (Cons p preps)
  have next_ok: "seed_in_range (fst (rs (Some s)))"
    using randint_ok_range [OF assms] by blast
  from Cons.IH [OF next_ok, of "LazyDatasetTransform p ds (Some s)"]
  obtain g s' where
    run: "run_preprocessors example_engine rs preps (LazyDatasetTransform p ds (Some s))
            (fst (rs (Some s))) = Inr (g, s')" and
    ts: "transform_seeds g = transform_seeds (LazyDatasetTransform p ds (Some s))
            @ map Some (prep_seed_chain rs (length preps) (fst (rs (Some s))))" and
    ss: "shuffle_seeds g = shuffle_seeds (LazyDatasetTransform p ds (Some s))"
    by blast
  have "run_preprocessors example_engine rs (p # preps) ds s = Inr (g, s')"
    using run
    by (simp add: transform_example split_seed_in_range [OF Cons.prems] case_prod_beta)
  with ts ss show ?case by simp
qed

text \<open>The seeds of one epoch, as the specification derives them.\<close>

lemma run_epochs_seeds:
  assumes ok: "randint_ok rs"
    and src: "transform_seeds ds = []" "shuffle_seeds ds = []"
  shows "seed_accepted e \<Longrightarrow>
     \<exists>out. run_epochs example_engine rs (Some preps) sh (replicate n ds) e acc = Inr (acc @ out) \<and>
       length out = n \<and>
       map transform_seeds out =
         map (\<lambda>j. map Some (prep_seed_chain rs (length preps)
                               (prep_seed_of rs (epoch_seed rs e j)))) [0..<n] \<and>
       map shuffle_seeds out =
         map (\<lambda>j. if sh then [shuffle_seed_of rs (epoch_seed rs e j)] else []) [0..<n]"
proof (induction n arbitrary: e acc)
  case 0
  show ?case by simp
next
  case (Suc n)
  let ?e' = "Some (fst (rs e))"
  have e': "seed_accepted ?e'"
    using randint_ok_range [OF ok] by (blast intro: seed_in_range_accepted)
  have p: "seed_in_range (snd (rs e))" and p': "seed_in_range (prep_seed_of rs e)"
    using randint_ok_range [OF ok] by (simp_all add: prep_seed_of_def)
  from run_preprocessors_seeds [OF ok p', of preps ds]
  obtain g s' where
    run: "run_preprocessors example_engine rs preps ds (prep_seed_of rs e) = Inr (g, s')" and
    ts: "transform_seeds g = map Some (prep_seed_chain rs (length preps) (prep_seed_of rs e))" and
    ss: "shuffle_seeds g = []"
    using src by auto
  let ?d = "if sh then ShuffleLazyMapDataset g (shuffle_seed_of rs e) else g"
  from Suc.IH [OF e', of "acc @ [?d]"]
  obtain out where
    rest: "run_epochs example_engine rs (Some preps) sh (replicate n ds) ?e' (acc @ [?d])
             = Inr ((acc @ [?d]) @ out)" and
    len: "length out = n" and
    outt: "map transform_seeds out =
         map (\<lambda>j. map Some (prep_seed_chain rs (length preps)
                               (prep_seed_of rs (epoch_seed rs ?e' j)))) [0..<n]" and
    outs: "map shuffle_seeds out =
         map (\<lambda>j. if sh then [shuffle_seed_of rs (epoch_seed rs ?e' j)] else []) [0..<n]"
    by blast
  have step: "run_epochs example_engine rs (Some preps) sh (replicate (Suc n) ds) e acc
      = Inr (acc @ (?d # out))"
    using rest run
    by (cases sh)
      (simp_all add: split_seed_accepted [OF Suc.prems] split_seed_in_range [OF p]
        prep_seed_of_def shuffle_seed_of_def shuffle_example case_prod_beta)
  have upt: "[0..<Suc n] = 0 # map Suc [0..<n]"
    by (simp add: upt_conv_Cons map_Suc_upt del: upt_Suc)
  have t: "map transform_seeds (?d # out) =
         map (\<lambda>j. map Some (prep_seed_chain rs (length preps)
                               (prep_seed_of rs (epoch_seed rs e j)))) [0..<Suc n]"
    unfolding upt using ts outt by (simp add: comp_def)
  have s: "map shuffle_seeds (?d # out) =
         map (\<lambda>j. if sh then [shuffle_seed_of rs (epoch_seed rs e j)] else []) [0..<Suc n]"
    unfolding upt using ss outs by (simp add: comp_def)
  from step len t s show ?case
    by (intro exI [of _ "?d # out"]) simp
qed

lemma get_task_lazy_dataset_unfold:
  assumes "preprocessors task = Some a"
    and "source task = Some s" "src_get_data_source s sp = Inr g"
    and "new_SourceLazyMapDataset eng g = Inr d0"
    and "(case shard_info of
            None \<Rightarrow> Inr d0
          | Some si \<Rightarrow> new_ShardLazyMapDataset eng d0 (ShardOptions (index si) (num_shards si)))
         = Inr d"
    and "converter_transforms fc sl = Inr ts" "lazy_batch_operations eng b = Inr bs"
  shows "get_task_lazy_dataset eng rs h task sl sp fc b sh sd shard_info ne
     = (case run_epochs eng rs (Some (h[a := h ! a @ ts @ bs] ! a)) sh
               (replicate (epoch_count ne) d) sd [] of
          Inl e \<Rightarrow> (Inl e, h[a := h ! a @ ts @ bs])
        | Inr preprocessed_dss \<Rightarrow>
            if length preprocessed_dss = 1
            then (Inr (preprocessed_dss ! 0), h[a := h ! a @ ts @ bs])
            else (case new_ConcatLazyMapDataset eng preprocessed_dss of
                    Inl e \<Rightarrow> (Inl e, h[a := h ! a @ ts @ bs])
                  | Inr ds' \<Rightarrow> (Inr ds', h[a := h ! a @ ts @ bs])))"
proof -
  have fc: "(case fc of
              None \<Rightarrow> Inr h
            | Some f \<Rightarrow>
                (case f sl of
                   Inl e \<Rightarrow> Inl e
                 | Inr transforms \<Rightarrow> Inr (list_extend h a transforms)))
      = Inr (h[a := h ! a @ ts])"
    using assms(6) by (cases fc) (auto simp: converter_transforms_def list_extend_def)
  have b: "(if truthy b
            then (case new_Batch eng (the b) None of
                    Inl e \<Rightarrow> Inl e
                  | Inr batch_op \<Rightarrow> Inr (list_append (h[a := h ! a @ ts]) a batch_op))
            else Inr (h[a := h ! a @ ts]))
      = Inr (h[a := h ! a @ ts @ bs])"
    using assms(7)
    by (cases "a < length h")
      (auto simp: lazy_batch_operations_def list_append_def list_update_beyond
         split: if_splits sum.splits)
  have dss: "(if truthy ne then replicate (nat (the ne)) d else [d])
      = replicate (epoch_count ne) d"
    by (simp add: epoch_count_def)
  show ?thesis
    unfolding get_task_lazy_dataset_def get_data_source_for_split_def Let_def
    by (simp only: assms(1-5) option.case sum.case fc b dss option.map)
qed

lemma concat_single: "length xs = 1 \<Longrightarrow> f (xs ! 0) = concat (map f xs)"
  by (cases xs) simp_all

lemma get_task_lazy_dataset_seeds:
  assumes ok: "randint_ok rs" and acc: "seed_accepted seed"
    and p: "preprocessors task = Some a"
    and src: "source task = Some s" "src_get_data_source s sp = Inr g0"
    and ext: "converter_transforms fc sl = Inr ts"
        "lazy_batch_operations example_engine b = Inr bs"
  shows "\<exists>g. get_task_lazy_dataset example_engine rs h task sl sp fc b sh seed shard_info ne
            = (Inr g, h[a := h ! a @ ts @ bs]) \<and>
     transform_seeds g =
       concat (map (\<lambda>j. map Some (prep_seed_chain rs (length (h[a := h ! a @ ts @ bs] ! a))
                                     (prep_seed_of rs (epoch_seed rs seed j))))
                 [0..<epoch_count ne]) \<and>
     shuffle_seeds g =
       concat (map (\<lambda>j. if sh then [shuffle_seed_of rs (epoch_seed rs seed j)] else [])
                 [0..<epoch_count ne])"
proof -
  let ?h = "h[a := h ! a @ ts @ bs]"
  let ?raw = "SourceLazyMapDataset g0"
  let ?sharded = "case shard_info of
              None \<Rightarrow> ?raw
            | Some si \<Rightarrow> ShardLazyMapDataset ?raw (ShardOptions (index si) (num_shards si))"
  have d0: "new_SourceLazyMapDataset example_engine g0 = Inr ?raw"
    by (simp add: example_engine_def)
  have d: "(case shard_info of
            None \<Rightarrow> Inr ?raw
          | Some si \<Rightarrow> new_ShardLazyMapDataset example_engine ?raw
                        (ShardOptions (index si) (num_shards si)))
         = Inr ?sharded"
    by (simp add: example_engine_def split: option.split)
  have none: "transform_seeds ?sharded = []" "shuffle_seeds ?sharded = []"
    by (simp_all split: option.split)
  from run_epochs_seeds [OF ok none acc, of "?h ! a" sh "epoch_count ne" "[]"]
  obtain out where
    run: "run_epochs example_engine rs (Some (?h ! a)) sh (replicate (epoch_count ne) ?sharded) seed []
            = Inr out" and
    ts: "map transform_seeds out =
         map (\<lambda>j. map Some (prep_seed_chain rs (length (?h ! a))
                               (prep_seed_of rs (epoch_seed rs seed j)))) [0..<epoch_count ne]" and
    ss: "map shuffle_seeds out =
         map (\<lambda>j. if sh then [shuffle_seed_of rs (epoch_seed rs seed j)] else [])
           [0..<epoch_count ne]"
    by auto
  let ?g = "if length out = 1 then out ! 0 else ConcatLazyMapDataset out"
  have res: "get_task_lazy_dataset example_engine rs h task sl sp fc b sh seed shard_info ne
      = (Inr ?g, ?h)"
    unfolding get_task_lazy_dataset_unfold [OF p src d0 d ext] run
    by (simp add: example_engine_def)
  have gt: "transform_seeds ?g = concat (map transform_seeds out)"
    by (simp add: concat_single)
  have gs: "shuffle_seeds ?g = concat (map shuffle_seeds out)"
    by (simp add: concat_single)
  from res gt gs ts ss show ?thesis
    by (intro exI [of _ ?g]) (simp only: simp_thms)
qed

lemma seeds_pigeonhole:
  assumes "\<forall>k \<in> set xs. seed_in_range k" "length xs > 65535"
  shows "\<not> distinct xs"
proof
  assume "distinct xs"
  then have "card (set xs) = length xs" by (rule distinct_card)
  moreover have "set xs \<subseteq> {0..<65535::int}"
    using assms(1) by (auto simp: seed_in_range_def)
  then have "card (set xs) \<le> card {0..<65535::int}"
    by (intro card_mono) simp_all
  ultimately show False using assms(2) by simp
qed

lemma length_concat_chains:
  "length (concat (map (\<lambda>j. map Some (prep_seed_chain rs n (f j))) js)) = length js * n"
  by (induction js) (simp_all add: prep_seed_chain_length)

lemma example_random_state_ok: "randint_ok example_random_state"
  unfolding randint_ok_def example_random_state_def
  by (auto split: option.split)

text \<open>
  Claim C2, as the code has it. Let the generator draw in the range of \<^verbatim>\<open>randint\<close>, the
  starting seed be one that \<^verbatim>\<open>RandomState\<close> accepts, and the engine return the syntax
  tree of each call. Then \<^verbatim>\<open>get_task_lazy_dataset\<close> returns a dataset whose preprocessor
  seeds and shuffle seeds are those of the seed tree, epoch by epoch, one seed for each
  preprocessor application, every one of them in \<open>[0, 2\<^sup>1\<^sup>6 - 1)\<close>. That they are pairwise
  distinct does not follow, and is false for a long chain.
\<close>

theorem get_task_lazy_dataset_seed_tree:
  assumes ok: "randint_ok rs" and acc: "seed_accepted seed"
    and p: "preprocessors task = Some a"
    and src: "source task = Some s" "src_get_data_source s sp = Inr g0"
    and ext: "converter_transforms fc sl = Inr ts"
        "lazy_batch_operations example_engine b = Inr bs"
  shows "\<exists>g. get_task_lazy_dataset example_engine rs h task sl sp fc b sh seed shard_info ne
            = (Inr g, h[a := h ! a @ ts @ bs]) \<and>
     transform_seeds g =
       concat (map (\<lambda>j. map Some (prep_seed_chain rs (length (h[a := h ! a @ ts @ bs] ! a))
                                     (prep_seed_of rs (epoch_seed rs seed j))))
                 [0..<epoch_count ne]) \<and>
     shuffle_seeds g =
       concat (map (\<lambda>j. if sh then [shuffle_seed_of rs (epoch_seed rs seed j)] else [])
                 [0..<epoch_count ne]) \<and>
     length (transform_seeds g) = epoch_count ne * length (h[a := h ! a @ ts @ bs] ! a) \<and>
     (\<forall>k \<in> set (transform_seeds g). \<exists>v. k = Some v \<and> seed_in_range v) \<and>
     (\<forall>k \<in> set (shuffle_seeds g). seed_in_range k)"
proof -
  let ?n = "length (h[a := h ! a @ ts @ bs] ! a)"
  from get_task_lazy_dataset_seeds [OF ok acc p src ext, of h sh shard_info ne]
  obtain g where
    run: "get_task_lazy_dataset example_engine rs h task sl sp fc b sh seed shard_info ne
            = (Inr g, h[a := h ! a @ ts @ bs])" and
    t: "transform_seeds g =
       concat (map (\<lambda>j. map Some (prep_seed_chain rs ?n (prep_seed_of rs (epoch_seed rs seed j))))
                 [0..<epoch_count ne])" and
    s: "shuffle_seeds g =
       concat (map (\<lambda>j. if sh then [shuffle_seed_of rs (epoch_seed rs seed j)] else [])
                 [0..<epoch_count ne])"
    by blast
  have len: "length (transform_seeds g) = epoch_count ne * ?n"
    unfolding t by (simp add: length_concat_chains)
  have pr: "seed_in_range (prep_seed_of rs e)" and sr: "seed_in_range (shuffle_seed_of rs e)" for e
    using randint_ok_range [OF ok] by (simp_all add: prep_seed_of_def shuffle_seed_of_def)
  have tr: "\<forall>k \<in> set (transform_seeds g). \<exists>v. k = Some v \<and> seed_in_range v"
    unfolding t using prep_seed_chain_range [OF ok pr] by auto
  have shr: "\<forall>k \<in> set (shuffle_seeds g). seed_in_range k"
    unfolding s using sr by (auto split: if_splits)
  from run t s len tr shr show ?thesis by blast
qed

theorem get_task_lazy_dataset_seed_tree_witness:
  "\<exists>g. get_task_lazy_dataset example_engine example_random_state example_heap example_task
          None ''train'' None None True (Some 0) None (Some 2) = (Inr g, example_heap) \<and>
        transform_seeds g = [Some 2, Some 3, Some 4, Some 5] \<and>
        shuffle_seeds g = [3, 7]"
proof -
  have hyps: "seed_accepted (Some 0)" "preprocessors example_task = Some 0"
      "source example_task = Some example_source"
      "src_get_data_source example_source ''train'' = Inr 7"
      "converter_transforms None None = Inr []"
      "lazy_batch_operations example_engine None = Inr []"
    by (simp_all add: seed_accepted_def example_task_def example_source_def
        converter_transforms_def lazy_batch_operations_def truthy_def)
  have heap: "example_heap[0 := example_heap ! 0 @ [] @ []] = example_heap"
    by (simp add: example_heap_def)
  have n: "length (example_heap ! 0) = Suc (Suc 0)"
    by (simp add: example_heap_def)
  have epochs: "[0..<epoch_count (Some 2)] = [0, Suc 0]"
    by (simp add: epoch_count_def truthy_def upt_conv_Cons)
  have seeds:
    "prep_seed_of example_random_state (epoch_seed example_random_state (Some 0) 0) = 2"
    "prep_seed_of example_random_state (epoch_seed example_random_state (Some 0) (Suc 0)) = 4"
    "shuffle_seed_of example_random_state (epoch_seed example_random_state (Some 0) 0) = 3"
    "shuffle_seed_of example_random_state (epoch_seed example_random_state (Some 0) (Suc 0)) = 7"
    by (simp_all add: prep_seed_of_def shuffle_seed_of_def example_random_state_def)
  have chains: "prep_seed_chain example_random_state (Suc (Suc 0)) 2 = [2, 3]"
    "prep_seed_chain example_random_state (Suc (Suc 0)) 4 = [4, 5]"
    by (simp_all add: example_random_state_def)
  from get_task_lazy_dataset_seed_tree [OF example_random_state_ok hyps,
      of example_heap True None "Some 2"]
  obtain g where
    run: "get_task_lazy_dataset example_engine example_random_state example_heap example_task
          None ''train'' None None True (Some 0) None (Some 2)
            = (Inr g, example_heap[0 := example_heap ! 0 @ [] @ []])" and
    t: "transform_seeds g =
       concat (map (\<lambda>j. map Some (prep_seed_chain example_random_state
                 (length (example_heap[0 := example_heap ! 0 @ [] @ []] ! 0))
                 (prep_seed_of example_random_state
                    (epoch_seed example_random_state (Some 0) j))))
                 [0..<epoch_count (Some 2)])" and
    s: "shuffle_seeds g =
       concat (map (\<lambda>j. if True then [shuffle_seed_of example_random_state
                                         (epoch_seed example_random_state (Some 0) j)] else [])
                 [0..<epoch_count (Some 2)])"
    by blast
  from t have t': "transform_seeds g = [Some 2, Some 3, Some 4, Some 5]"
    unfolding heap n epochs by (simp only: list.map concat.simps seeds chains append.simps)
  from s have s': "shuffle_seeds g = [3, 7]"
    unfolding epochs by (simp only: list.map concat.simps seeds if_True append.simps)
  from run t' s' show ?thesis
    unfolding heap by blast
qed

text \<open>
  The claim as stated fails, whatever the generator draws: the draws lie in
  \<open>[0, 2\<^sup>1\<^sup>6 - 1)\<close>, so of the 65536 preprocessors of one epoch two get the same seed.
\<close>

theorem seed_reuse_counterexample:
  "\<not> (\<exists>rs. randint_ok rs \<and>
         \<not> (\<exists>g h'. get_task_lazy_dataset example_engine rs long_chain_heap example_task
                      None ''train'' None None False (Some 0) None (Some 1) = (Inr g, h') \<and>
                    length (transform_seeds g) = 65536 \<and>
                    \<not> distinct (transform_seeds g)))"
proof
  assume "\<exists>rs. randint_ok rs \<and>
         \<not> (\<exists>g h'. get_task_lazy_dataset example_engine rs long_chain_heap example_task
                      None ''train'' None None False (Some 0) None (Some 1) = (Inr g, h') \<and>
                    length (transform_seeds g) = 65536 \<and>
                    \<not> distinct (transform_seeds g))"
  then obtain rs where ok: "randint_ok rs" and
    no: "\<not> (\<exists>g h'. get_task_lazy_dataset example_engine rs long_chain_heap example_task
                      None ''train'' None None False (Some 0) None (Some 1) = (Inr g, h') \<and>
                    length (transform_seeds g) = 65536 \<and>
                    \<not> distinct (transform_seeds g))"
    by blast
  have hyps: "seed_accepted (Some 0)" "preprocessors example_task = Some 0"
      "source example_task = Some example_source"
      "src_get_data_source example_source ''train'' = Inr 7"
      "converter_transforms None None = Inr []"
      "lazy_batch_operations example_engine None = Inr []"
    by (simp_all add: seed_accepted_def example_task_def example_source_def
        converter_transforms_def lazy_batch_operations_def truthy_def)
  have n: "length (long_chain_heap[0 := long_chain_heap ! 0 @ [] @ []] ! 0) = 65536"
    by (simp add: long_chain_heap_def)
  have one: "epoch_count (Some 1) = 1"
    by (simp add: epoch_count_def truthy_def)
  from get_task_lazy_dataset_seeds [OF ok hyps, of long_chain_heap False None "Some 1"]
  obtain g where
    run: "get_task_lazy_dataset example_engine rs long_chain_heap example_task
          None ''train'' None None False (Some 0) None (Some 1)
            = (Inr g, long_chain_heap[0 := long_chain_heap ! 0 @ [] @ []])" and
    t: "transform_seeds g =
       concat (map (\<lambda>j. map Some (prep_seed_chain rs
                 (length (long_chain_heap[0 := long_chain_heap ! 0 @ [] @ []] ! 0))
                 (prep_seed_of rs (epoch_seed rs (Some 0) j))))
                 [0..<epoch_count (Some 1)])"
    by blast
  let ?chain = "prep_seed_chain rs 65536 (prep_seed_of rs (Some 0))"
  from t have t': "transform_seeds g = map Some ?chain"
    unfolding n one by simp
  have len: "length ?chain = 65536"
    by (rule prep_seed_chain_length)
  have "seed_in_range (prep_seed_of rs (Some 0))"
    using randint_ok_range [OF ok] by (simp add: prep_seed_of_def)
  from prep_seed_chain_range [OF ok this]
  have "\<forall>k \<in> set ?chain. seed_in_range k" .
  then have "\<not> distinct ?chain"
    by (rule seeds_pigeonhole) (simp add: len)
  then have "\<not> distinct (transform_seeds g)"
    unfolding t' by (simp add: distinct_map)
  moreover have "length (transform_seeds g) = 65536"
    unfolding t' by (simp add: len)
  ultimately show False using run no by blast
qed

end
